theory Spec2Isabelle
  imports Main "HOL-Library.Stream"
begin

section \<open>The API access layer of sc2-monitor (\<^verbatim>\<open>src/sc2monitor/sc2api.py\<close>)\<close>

text \<open>
  The class \<^verbatim>\<open>SC2API\<close> is embedded by explicit state passing. Every coroutine of the
  class becomes a function from the state of the instance to a result and the new state;
  an exception is a value \<open>Inl e\<close> of the result. The transport (the \<^verbatim>\<open>aiohttp\<close>
  session), the logger and the controller's configuration store are the environment of the
  class; they are fields of the same state record. The session exists
  (\<^verbatim>\<open>controller.http_session\<close>), and the interpreter executes \<^verbatim>\<open>assert\<close> statements.

  Strings are ASCII (\<open>char list\<close>). Decoded JSON documents are taken at the types the
  upstream schema gives them: integers are \<open>int\<close>, a ladder document holds a list of rank
  entries and a list of teams. A document of another shape (a rank entry without
  \<^verbatim>\<open>rank\<close>, a rank that is no number) makes the source raise \<^verbatim>\<open>TypeError\<close> at the first
  use and is not an input of this model.
\<close>

subsection \<open>Exceptions\<close>

datatype error =
    InvalidApiResponse int    \<comment> \<open>\<^verbatim>\<open>InvalidApiResponse(status)\<close>\<close>
  | ValueError string
  | KeyError string
  | IndexError
  | TypeError
  | NameError string
  | UnboundLocalError string

subsection \<open>Domain enumerations (\<^verbatim>\<open>src/sc2monitor/model.py\<close>)\<close>

datatype Result = Unknown | Win | Loss | Tie

datatype Race = Random | Protoss | Terran | Zerg

datatype Server = Unknown_Server | America | Europe | Korea

datatype League = Unranked | Bronze | Silver | Gold | Platinum | Diamond | Master | Grandmaster

subsection \<open>Strings\<close>

text \<open>\<^verbatim>\<open>c.lower()\<close> for one character.\<close>

definition lower :: "char \<Rightarrow> char" where
  "lower c =
     (case map_of (zip ''ABCDEFGHIJKLMNOPQRSTUVWXYZ'' ''abcdefghijklmnopqrstuvwxyz'') c of
        None \<Rightarrow> c
      | Some l \<Rightarrow> l)"

text \<open>The classes \<^verbatim>\<open>\d\<close> and \<^verbatim>\<open>\w\<close> of a regular expression, on ASCII.\<close>

definition is_digit :: "char \<Rightarrow> bool" where
  "is_digit c = (c \<in> set ''0123456789'')"

definition is_word :: "char \<Rightarrow> bool" where
  "is_word c =
     (c \<in> set ''abcdefghijklmnopqrstuvwxyzABCDEFGHIJKLMNOPQRSTUVWXYZ0123456789_'')"

text \<open>\<^verbatim>\<open>int(s)\<close> for a non-empty string of decimal digits.\<close>

definition digit_value :: "char \<Rightarrow> int" where
  "digit_value c =
     (case map_of (zip ''0123456789'' [0, 1, 2, 3, 4, 5, 6, 7, 8, 9]) c of
        None \<Rightarrow> 0
      | Some v \<Rightarrow> v)"

definition int_of_digits :: "string \<Rightarrow> int" where
  "int_of_digits s = foldl (\<lambda>n c. 10 * n + digit_value c) 0 s"

text \<open>
  \<^verbatim>\<open>datetime.fromtimestamp(t)\<close> for an integer \<open>t\<close>, in a process whose local time is UTC.
  CPython converts the timestamp and, for the test of a repeated hour, the timestamp of one
  day earlier; both must lie in the years 1 to 9999, which are the timestamps from
  \<open>-62135510400\<close> to \<open>253402300799\<close>. For every other value the call raises: \<^verbatim>\<open>ValueError\<close>
  (the year is out of range), which is what a timestamp in milliseconds gets, and for
  values far outside, where the platform gives up before a year is known, \<^verbatim>\<open>OSError\<close> or
  \<^verbatim>\<open>OverflowError\<close>; the model has \<^verbatim>\<open>ValueError\<close> for all of them. The date and time
  returned is kept as the timestamp it stands for.
\<close>

definition fromtimestamp :: "int \<Rightarrow> error + int" where
  "fromtimestamp t =
     (if - 62135510400 \<le> t \<and> t \<le> 253402300799 then Inr t
      else Inl (ValueError ''year is out of range''))"

text \<open>\<^verbatim>\<open>not s\<close> for a value that is a string or \<^verbatim>\<open>None\<close>.\<close>

fun py_not :: "string option \<Rightarrow> bool" where
  "py_not None = True"
| "py_not (Some s) = (s = [])"

subsection \<open>Lookups of the enumerations\<close>

text \<open>
  \<^verbatim>\<open>cls.__members__\<close> lists the names of an enumeration in the order of declaration;
  \<^verbatim>\<open>cls[name]\<close> is the member of that name.
\<close>

definition Result_members :: "(string \<times> Result) list" where
  "Result_members = [(''Unknown'', Unknown), (''Win'', Win), (''Loss'', Loss), (''Tie'', Tie)]"

definition Race_members :: "(string \<times> Race) list" where
  "Race_members =
     [(''Random'', Random), (''Protoss'', Protoss), (''Terran'', Terran), (''Zerg'', Zerg)]"

definition League_members :: "(string \<times> League) list" where
  "League_members =
     [(''Unranked'', Unranked), (''Bronze'', Bronze), (''Silver'', Silver), (''Gold'', Gold),
      (''Platinum'', Platinum), (''Diamond'', Diamond), (''Master'', Master),
      (''Grandmaster'', Grandmaster)]"

text \<open>
  \<^verbatim>\<open>Race.get(str)\<close>: the loop over the members returns at the first one whose name starts
  with the first letter of \<open>str\<close>, case ignored; after the loop the method raises.
\<close>

fun Race_get :: "string option \<Rightarrow> error + Race" where
  "Race_get None = Inr Random"
| "Race_get (Some []) = Inr Random"
| "Race_get (Some (c # cs)) =
     (case find (\<lambda>(race, _). lower (hd race) = lower c) Race_members of
        Some (_, member) \<Rightarrow> Inr member
      | None \<Rightarrow> Inl (ValueError (''Unknown race '' @ c # cs @ ''.'')))"

text \<open>\<^verbatim>\<open>League.get(str)\<close> compares the slices \<^verbatim>\<open>[0:1]\<close>.\<close>

fun League_get :: "string option \<Rightarrow> error + League" where
  "League_get None = Inr Unranked"
| "League_get (Some []) = Inr Unranked"
| "League_get (Some (c # cs)) =
     (case find (\<lambda>(league, _). map lower (take 1 league) = map lower (take 1 (c # cs)))
             League_members of
        Some (_, member) \<Rightarrow> Inr member
      | None \<Rightarrow> Inl (ValueError (''Unknown league '' @ c # cs @ ''.'')))"

text \<open>\<^verbatim>\<open>model.Result[name]\<close>: the lookup by name of \<^verbatim>\<open>enum.Enum\<close>.\<close>

definition Result_getitem :: "string \<Rightarrow> error + Result" where
  "Result_getitem name =
     (case map_of Result_members name of
        None \<Rightarrow> Inl (KeyError name)
      | Some r \<Rightarrow> Inr r)"

text \<open>
  \<^verbatim>\<open>model.Server(value)\<close>, the lookup by value, and \<^verbatim>\<open>server.id()\<close>. The message of the
  \<^verbatim>\<open>ValueError\<close> is kept without the value it starts with.
\<close>

definition Server_of_value :: "int \<Rightarrow> error + Server" where
  "Server_of_value v =
     (if v = 0 then Inr Unknown_Server
      else if v = 1 then Inr America
      else if v = 2 then Inr Europe
      else if v = 3 then Inr Korea
      else Inl (ValueError ''not a valid Server''))"

fun Server_id :: "Server \<Rightarrow> int" where
  "Server_id Unknown_Server = 0"
| "Server_id America = 1"
| "Server_id Europe = 2"
| "Server_id Korea = 3"

subsection \<open>Decoded documents\<close>

record rank_entry =
  rank :: int
  mmr :: int

record member =
  member_id :: int                    \<comment> \<open>\<^verbatim>\<open>int(player.get('id'))\<close>\<close>
  realm :: int                        \<comment> \<open>\<^verbatim>\<open>int(player.get('realm'))\<close>\<close>
  favoriteRace :: "string option"     \<comment> \<open>\<open>None\<close>: the key is absent or null\<close>
  displayName :: string

record team =
  teamMembers :: "member list"
  wins :: int
  losses :: int
  team_mmr :: int                     \<comment> \<open>\<^verbatim>\<open>team.get('mmr')\<close>\<close>
  joinTimestamp :: int

record match =
  match_type :: string                \<comment> \<open>\<^verbatim>\<open>match['type']\<close>\<close>
  decision :: string
  date :: int

text \<open>
  A decoded body is a Python \<^verbatim>\<open>dict\<close>. The model keeps the keys the class reads or
  writes, each at the type of the upstream schema; \<open>None\<close> is a key that is absent, for
  which \<^verbatim>\<open>d.get(k)\<close> returns \<^verbatim>\<open>None\<close>.
\<close>

record payload =
  access_token_json :: "string option"          \<comment> \<open>\<^verbatim>\<open>'access_token'\<close>\<close>
  league :: "string option"
  ranksAndPools :: "rank_entry list option"
  ladderTeams :: "team list option"
  matches :: "match list option"
  request_datetime :: "int option"

text \<open>The empty dictionary \<^verbatim>\<open>{}\<close>.\<close>

definition empty_payload :: payload where
  "empty_payload =
     \<lparr>access_token_json = None, league = None, ranksAndPools = None, ladderTeams = None,
      matches = None, request_datetime = None\<rparr>"

subsection \<open>The environment and the state of an \<^verbatim>\<open>SC2API\<close> instance\<close>

text \<open>
  One response of the transport: the HTTP status, the decoded body (\<open>None\<close> when
  \<^verbatim>\<open>resp.json()\<close> raises \<^verbatim>\<open>ContentTypeError\<close>; no other exception of the transport is
  modelled), and the reading that \<^verbatim>\<open>datetime.now()\<close> gives once this body has been decoded.
\<close>

record response =
  status :: int
  body :: "payload option"
  decoded_at :: int

datatype url =
    OAuthCheckToken "string option"            \<comment> \<open>\<^verbatim>\<open>https://eu.battle.net/oauth/check_token\<close>, \<^verbatim>\<open>params={'token': token}\<close>\<close>
  | OAuthToken string string           \<comment> \<open>\<^verbatim>\<open>https://eu.battle.net/oauth/token\<close>, Basic auth with key and secret\<close>
  | LadderUrl int int int int          \<comment> \<open>\<^verbatim>\<open>.../sc2/profile/{}/{}/{}/ladder/{}\<close>\<close>
  | MatchesUrl int int int             \<comment> \<open>\<^verbatim>\<open>.../sc2/legacy/profile/{}/{}/{}/matches\<close>\<close>

datatype log_record =
    Warning string                     \<comment> \<open>\<^verbatim>\<open>logger.warning(error)\<close>\<close>
  | Warning_MMR url int int            \<comment> \<open>the warning of a ladder request whose two MMR values differ\<close>
  | Info string

record sc2api =
  key :: string
  secret :: string
  access_token :: "string option"
  access_token_checked :: bool
  request_count :: int
  retry_count :: int
  session :: "response stream"         \<comment> \<open>the responses the transport gives to the GETs to come\<close>
  sent :: "url list"                   \<comment> \<open>the GETs issued so far\<close>
  config :: "string \<rightharpoonup> string option"   \<comment> \<open>the controller's configuration store\<close>
  log :: "log_record list"

subsection \<open>The resilient request executor\<close>

text \<open>
  \<^verbatim>\<open>async with self._session.get(url, **kwargs) as resp: self.request_count += 1\<close>
\<close>

definition session_get :: "url \<Rightarrow> sc2api \<Rightarrow> response \<times> sc2api" where
  "session_get u st =
     (shd (session st),
      st\<lparr>session := stl (session st), sent := sent st @ [u],
         request_count := request_count st + 1\<rparr>)"

text \<open>
  The loop \<^verbatim>\<open>for retries in range(10)\<close> of \<^verbatim>\<open>_perform_api_request\<close>. The function runs the
  body with the loop variable bound to \<open>retries\<close>; \<open>rest\<close> holds the values of the range
  still to come. It returns the last value of \<open>retries\<close>, the value of \<open>error\<close>, and
  \<open>(json, status)\<close> when the loop was left by \<^verbatim>\<open>break\<close> (\<open>None\<close> when both names are
  still unbound).
\<close>

fun for_retries ::
  "url \<Rightarrow> nat \<Rightarrow> nat list \<Rightarrow> string \<Rightarrow> sc2api \<Rightarrow> (nat \<times> string \<times> (payload \<times> int) option) \<times> sc2api"
where
  "for_retries u retries rest error st =
     (case session_get u st of (resp, st1) \<Rightarrow>
        if status resp = 504 then
          (let error' = ''API timeout''; st2 = st1\<lparr>retry_count := retry_count st1 + 1\<rparr>
           in case rest of [] \<Rightarrow> ((retries, error', None), st2)
              | r # rs \<Rightarrow> for_retries u r rs error' st2)
        else
          (case body resp of
             None \<Rightarrow>
               (let error' = ''Unable to decode JSON!''; st2 = st1\<lparr>retry_count := retry_count st1 + 1\<rparr>
                in case rest of [] \<Rightarrow> ((retries, error', None), st2)
                   | r # rs \<Rightarrow> for_retries u r rs error' st2)
           | Some json \<Rightarrow>
               ((retries, error,
                 Some (json\<lparr>request_datetime := Some (decoded_at resp)\<rparr>, status resp)), st1)))"

declare for_retries.simps [simp del]

text \<open>
  \<^verbatim>\<open>_perform_api_request\<close>: the loop over \<^verbatim>\<open>range(10)\<close>, which is 0 followed by 1 to 9, and
  the statements after it. Reading \<^verbatim>\<open>json\<close> while it is unbound would raise
  \<^verbatim>\<open>UnboundLocalError\<close>.
\<close>

definition perform_api_request :: "url \<Rightarrow> sc2api \<Rightarrow> (error + payload \<times> int) \<times> sc2api" where
  "perform_api_request u st =
     (case for_retries u 0 [1, 2, 3, 4, 5, 6, 7, 8, 9] '''' st of
        ((retries, error, outcome), st1) \<Rightarrow>
          if retries = 9 then
            (Inr (empty_payload, 0),
             if error \<noteq> '''' then st1\<lparr>log := log st1 @ [Warning error]\<rparr> else st1)
          else
            (case outcome of
               Some r \<Rightarrow> (Inr r, st1)
             | None \<Rightarrow> (Inl (UnboundLocalError ''json''), st1)))"

text \<open>
  The two kinds of response that the loop answers with \<^verbatim>\<open>continue\<close>, and the text it
  assigns to \<^verbatim>\<open>error\<close> for each. They are used to state the properties of the executor.
\<close>

definition transient :: "response \<Rightarrow> bool" where
  "transient r = (status r = 504 \<or> body r = None)"

definition describe :: "response \<Rightarrow> string" where
  "describe r = (if status r = 504 then ''API timeout'' else ''Unable to decode JSON!'')"

subsection \<open>The profile-URL parser\<close>

text \<open>
  The two patterns of \<^verbatim>\<open>_precompile\<close> are written with matchers in continuation-passing
  style, which is the backtracking search of \<^verbatim>\<open>re.match\<close>: a matcher consumes a prefix of
  the string and hands the rest to its continuation; when the continuation fails, a
  greedy repetition gives back one character and an optional part is left out. The
  patterns are compiled with \<^verbatim>\<open>re.IGNORECASE\<close>, so literal characters are compared in
  lower case. \<^verbatim>\<open>re.match\<close> anchors the pattern at the start of the string only.
\<close>

type_synonym 'r matcher = "string \<Rightarrow> 'r option"

fun lit :: "string \<Rightarrow> 'r matcher \<Rightarrow> 'r matcher" where
  "lit [] k s = k s"
| "lit (p # ps) k [] = None"
| "lit (p # ps) k (c # cs) = (if lower p = lower c then lit ps k cs else None)"

text \<open>\<^verbatim>\<open>.\<close> matches every character but the newline.\<close>

definition any_char :: "'r matcher \<Rightarrow> 'r matcher" where
  "any_char k s = (case s of [] \<Rightarrow> None | c # cs \<Rightarrow> if c = CHR 0x0A then None else k cs)"

text \<open>\<^verbatim>\<open>x?\<close>: first with \<open>x\<close>, then without.\<close>

definition optional :: "('r matcher \<Rightarrow> 'r matcher) \<Rightarrow> 'r matcher \<Rightarrow> 'r matcher" where
  "optional p k s = (case p k s of Some r \<Rightarrow> Some r | None \<Rightarrow> k s)"

text \<open>
  \<^verbatim>\<open>[...]+\<close>: one character of the class, then as many more as the rest of the pattern
  allows, the longest run first. The continuation receives the text matched.
\<close>

fun one_or_more :: "(char \<Rightarrow> bool) \<Rightarrow> (string \<Rightarrow> 'r matcher) \<Rightarrow> string \<Rightarrow> 'r matcher" where
  "one_or_more cls k acc [] = None"
| "one_or_more cls k acc (c # cs) =
     (if cls c then
        (case one_or_more cls k (acc @ [c]) cs of
           Some r \<Rightarrow> Some r
         | None \<Rightarrow> k (acc @ [c]) cs)
      else None)"

text \<open>One character of a class; the continuation receives it.\<close>

definition one_of :: "(char \<Rightarrow> bool) \<Rightarrow> (char \<Rightarrow> 'r matcher) \<Rightarrow> 'r matcher" where
  "one_of cls k s = (case s of [] \<Rightarrow> None | c # cs \<Rightarrow> if cls c then k c cs else None)"

text \<open>\<^verbatim>\<open>(a|b)\<close> over literals, in order; the continuation receives the text matched.\<close>

fun alternatives :: "string list \<Rightarrow> (string \<Rightarrow> 'r matcher) \<Rightarrow> 'r matcher" where
  "alternatives [] k s = None"
| "alternatives (p # ps) k s =
     (case lit p (k (take (length p) s)) s of
        Some r \<Rightarrow> Some r
      | None \<Rightarrow> alternatives ps k s)"

text \<open>
  \<^verbatim>\<open>^https?:\/\/starcraft2.com\/(?:\w+-\w+\/)?profile\/([1-5])\/([1-2])\/(\d+)\/?\<close>.
  The result holds the groups 1, 2 and 3.
\<close>

definition p1 :: "string \<Rightarrow> (char \<times> char \<times> string) option" where
  "p1 =
     lit ''http'' (
     optional (lit ''s'') (
     lit ''://starcraft2'' (
     any_char (
     lit ''com/'' (
     optional
       (\<lambda>k. one_or_more is_word (\<lambda>_. lit ''-'' (one_or_more is_word (\<lambda>_. lit ''/'' k) [])) []) (
     lit ''profile/'' (
     one_of (\<lambda>c. c \<in> set ''12345'') (\<lambda>g1.
     lit ''/'' (
     one_of (\<lambda>c. c \<in> set ''12'') (\<lambda>g2.
     lit ''/'' (
     one_or_more is_digit (\<lambda>g3.
     optional (lit ''/'') (\<lambda>_. Some (g1, g2, g3))) [])))))))))))"

text \<open>
  \<^verbatim>\<open>^https?:\/\/(eu|us).battle.net\/sc2\/\w+\/profile/(\d+)\/([1-2])\/\w+\/?\<close>.
\<close>

definition p2 :: "string \<Rightarrow> (string \<times> string \<times> char) option" where
  "p2 =
     lit ''http'' (
     optional (lit ''s'') (
     lit ''://'' (
     alternatives [''eu'', ''us''] (\<lambda>g1.
     any_char (
     lit ''battle'' (
     any_char (
     lit ''net/sc2/'' (
     one_or_more is_word (\<lambda>_.
     lit ''/profile/'' (
     one_or_more is_digit (\<lambda>g2.
     lit ''/'' (
     one_of (\<lambda>c. c \<in> set ''12'') (\<lambda>g3.
     lit ''/'' (
     one_or_more is_word (\<lambda>_.
     optional (lit ''/'') (\<lambda>_. Some (g1, g2, g3))) [])))) [])) []))))))))"

definition parse_profile_url :: "string \<Rightarrow> error + Server \<times> int \<times> int" where
  "parse_profile_url u =
     (case p1 u of
        Some (g1, g2, g3) \<Rightarrow>
          (case Server_of_value (int_of_digits [g1]) of
             Inl e \<Rightarrow> Inl e
           | Inr server \<Rightarrow>
               (let realmID = int_of_digits [g2]; profileID = int_of_digits g3
                in Inr (server, realmID, profileID)))
      | None \<Rightarrow>
          (case p2 u of
             Some (g1, g2, g3) \<Rightarrow>
               (case Server_of_value (if map lower g1 = ''eu'' then 2 else 1) of
                  Inl e \<Rightarrow> Inl e
                | Inr server \<Rightarrow>
                    (let profileID = int_of_digits g2; realmID = int_of_digits [g3]
                     in Inr (server, realmID, profileID)))
           | None \<Rightarrow> Inl (ValueError (''Invalid profile url '' @ u))))"

subsection \<open>The token manager\<close>

text \<open>
  A call of \<^verbatim>\<open>get_access_token\<close> is modelled on its own: the lock is free when the call
  starts, is held while the body runs and is released on every way out. The key and the
  secret are strings that \<^verbatim>\<open>BasicAuth\<close> accepts.
\<close>

definition check_access_token :: "string option \<Rightarrow> sc2api \<Rightarrow> bool \<times> sc2api" where
  "check_access_token token st =
     (case session_get (OAuthCheckToken token) st of (resp, st1) \<Rightarrow>
        (let st2 = st1\<lparr>access_token_checked := (status resp = 200)\<rparr>
         in (access_token_checked st2, st2)))"

definition receive_new_access_token :: "sc2api \<Rightarrow> (error + unit) \<times> sc2api" where
  "receive_new_access_token st =
     (case perform_api_request (OAuthToken (key st) (secret st)) st of
        (Inl e, st1) \<Rightarrow> (Inl e, st1)
      | (Inr (data, status'), st1) \<Rightarrow>
          if status' \<noteq> 200 then (Inl (InvalidApiResponse status'), st1)
          else
            (let st2 = st1\<lparr>access_token := access_token_json data\<rparr>;
                 st3 = st2\<lparr>access_token_checked := True\<rparr>;
                 st4 = st3\<lparr>config := (config st3)(''access_token'' \<mapsto> access_token st3)\<rparr>
             in (Inr (), st4\<lparr>log := log st4 @ [Info ''New access token received.'']\<rparr>)))"

definition get_access_token :: "sc2api \<Rightarrow> (error + string option) \<times> sc2api" where
  "get_access_token st =
     (if py_not (access_token st) then
        (case receive_new_access_token st of
           (Inl e, st1) \<Rightarrow> (Inl e, st1)
         | (Inr _, st1) \<Rightarrow> (Inr (access_token st1), st1))
      else if access_token_checked st then (Inr (access_token st), st)
      else
        (case check_access_token (access_token st) st of (ok, st1) \<Rightarrow>
           if ok then (Inr (access_token st1), st1)
           else
             (case receive_new_access_token st1 of
                (Inl e, st2) \<Rightarrow> (Inl e, st2)
              | (Inr _, st2) \<Rightarrow> (Inr (access_token st2), st2))))"

text \<open>
  Several callers of \<^verbatim>\<open>get_access_token\<close> at once. The whole body, from the test of the
  token to the end of the refresh, runs while the caller holds \<^verbatim>\<open>_access_token_lock\<close>
  (lines 63 to 67), and nothing is awaited between the release of the lock and the
  \<^verbatim>\<open>return\<close>. The calls of concurrent callers therefore take effect one after the other, in
  the order in which the lock is granted, each on the state that the one before has left;
  an exception leaves the lock free for the next caller. \<open>calls k\<close> runs \<open>k\<close> calls in that
  order and lists what each caller receives.
\<close>

fun calls :: "nat \<Rightarrow> sc2api \<Rightarrow> (error + string option) list \<times> sc2api" where
  "calls 0 st = ([], st)"
| "calls (Suc k) st =
     (case get_access_token st of (r, st1) \<Rightarrow>
        (case calls k st1 of (rs, st2) \<Rightarrow> (r # rs, st2)))"

subsection \<open>The reconciliation of a ladder snapshot\<close>

text \<open>\<^verbatim>\<open>xs[i]\<close>: a negative index counts from the end; \<open>None\<close> is \<^verbatim>\<open>IndexError\<close>.\<close>

definition py_index :: "'a list \<Rightarrow> int \<Rightarrow> 'a option" where
  "py_index xs i =
     (let n = int (length xs)
      in if 0 \<le> i \<and> i < n then Some (xs ! nat i)
         else if - n \<le> i \<and> i < 0 then Some (xs ! nat (n + i))
         else None)"

text \<open>The local variables of \<^verbatim>\<open>_get_ladder_data\<close> that live across the iterations.\<close>

record locals =
  found_idx :: int
  used :: "int list"

text \<open>
  The \<^verbatim>\<open>try\<close> block, lines 185 to 191, for the claimed index \<open>idx\<close>: the team and its first
  member when no exception is raised, \<open>None\<close> when \<^verbatim>\<open>IndexError\<close> (the index, or a team
  without members) or \<^verbatim>\<open>AssertionError\<close> sends the control to the handler.
\<close>

definition claimed_team :: "team list \<Rightarrow> int \<Rightarrow> int \<Rightarrow> int \<Rightarrow> (team \<times> member) option" where
  "claimed_team teams realmID profileID idx =
     (case py_index teams idx of
        None \<Rightarrow> None
      | Some team \<Rightarrow>
          (case teamMembers team of
             [] \<Rightarrow> None
           | player # _ \<Rightarrow>
               if member_id player = profileID \<and> realm player = realmID
               then Some (team, player) else None))"

text \<open>
  The loop \<^verbatim>\<open>for team_idx in range(found_idx + 1, len(data.get('ladderTeams')))\<close> of the
  handler, from \<open>team_idx\<close> on. \<open>Inr None\<close>: the range is exhausted and \<open>found\<close> is still
  false. The first member of a team is read before the test, so a team without members
  raises \<^verbatim>\<open>IndexError\<close>, which nothing catches here.
\<close>

function scan ::
  "team list \<Rightarrow> int \<Rightarrow> int \<Rightarrow> int list \<Rightarrow> int \<Rightarrow> error + (int \<times> team \<times> member) option"
where
  "scan teams realmID profileID used_idx team_idx =
     (if team_idx < int (length teams) then
        (case py_index teams team_idx of
           None \<Rightarrow> Inl IndexError
         | Some team \<Rightarrow>
             (case teamMembers team of
                [] \<Rightarrow> Inl IndexError
              | player # _ \<Rightarrow>
                  if team_idx \<notin> set used_idx \<and> member_id player = profileID
                     \<and> realm player = realmID
                  then Inr (Some (team_idx, team, player))
                  else scan teams realmID profileID used_idx (team_idx + 1)))
      else Inr None)"
  by pat_completeness auto
termination
  by (relation "measure (\<lambda>(teams, _, _, _, team_idx). nat (int (length teams) - team_idx))") auto

declare scan.simps [simp del]

text \<open>
  Lines 185 to 207: the team and the player that one entry of \<^verbatim>\<open>ranksAndPools\<close> is matched
  with, and the local variables afterwards. The handler ends with
  \<^verbatim>\<open>raise InvalidApiResponse(r.url)\<close>; no name \<^verbatim>\<open>r\<close> is bound in the function or in the
  module, so evaluating the argument raises \<^verbatim>\<open>NameError\<close>.
\<close>

definition find_team ::
  "team list \<Rightarrow> int \<Rightarrow> int \<Rightarrow> locals \<Rightarrow> rank_entry \<Rightarrow> error + team \<times> member \<times> locals"
where
  "find_team teams realmID profileID l meta_data =
     (let idx = rank meta_data - 1
      in case claimed_team teams realmID profileID idx of
           Some (team, player) \<Rightarrow> Inr (team, player, l\<lparr>used := used l @ [idx]\<rparr>)
         | None \<Rightarrow>
             (case scan teams realmID profileID (used l) (found_idx l + 1) of
                Inl e \<Rightarrow> Inl e
              | Inr None \<Rightarrow> Inl (NameError ''r'')
              | Inr (Some (team_idx, team, player)) \<Rightarrow>
                  Inr (team, player, l\<lparr>found_idx := team_idx, used := used l @ [team_idx]\<rparr>)))"

text \<open>
  The record that the generator yields. The values of the dictionary are evaluated in the
  order in which they are written: \<^verbatim>\<open>Race.get\<close> before \<^verbatim>\<open>datetime.fromtimestamp\<close>.
\<close>

record entry =
  entry_mmr :: int
  entry_race :: Race
  games :: int
  entry_wins :: int
  entry_losses :: int
  name :: string
  joined :: int
  ladder_id :: int
  entry_league :: League

text \<open>
  The loop over \<^verbatim>\<open>ranksAndPools\<close>, lines 182 to 230, drained to its end. The result holds
  the entries yielded in order and how the generator ended (\<open>None\<close>: it returned,
  \<open>Some e\<close>: it raised \<open>e\<close> after these entries), the local variables and the log.
\<close>

fun for_ranks ::
  "url \<Rightarrow> int \<Rightarrow> League \<Rightarrow> team list \<Rightarrow> int \<Rightarrow> int \<Rightarrow> rank_entry list \<Rightarrow> locals
     \<Rightarrow> log_record list \<Rightarrow> (entry list \<times> error option) \<times> locals \<times> log_record list"
where
  "for_ranks api_url ladderID lg teams realmID profileID [] l logged = (([], None), l, logged)"
| "for_ranks api_url ladderID lg teams realmID profileID (meta_data # rest) l logged =
     (case find_team teams realmID profileID l meta_data of
        Inl e \<Rightarrow> (([], Some e), l, logged)
      | Inr (team, player, l1) \<Rightarrow>
          (let differs = (mmr meta_data \<noteq> team_mmr team);
               logged1 =
                 (if differs
                  then logged @ [Warning_MMR api_url (mmr meta_data) (team_mmr team)]
                  else logged);
               mmr1 = (if differs then team_mmr team else mmr meta_data)
           in case Race_get (favoriteRace player) of
                Inl e \<Rightarrow> (([], Some e), l1, logged1)
              | Inr race \<Rightarrow>
                  (case fromtimestamp (joinTimestamp team) of
                     Inl e \<Rightarrow> (([], Some e), l1, logged1)
                   | Inr joined_at \<Rightarrow>
                       (case for_ranks api_url ladderID lg teams realmID profileID rest l1
                               logged1 of
                          ((es, ending), l2, logged2) \<Rightarrow>
                            ((\<lparr>entry_mmr = mmr1, entry_race = race,
                               games = wins team + losses team,
                               entry_wins = wins team, entry_losses = losses team,
                               name = displayName player, joined = joined_at,
                               ladder_id = ladderID, entry_league = lg\<rparr> # es, ending),
                             l2, logged2)))))"

text \<open>
  \<^verbatim>\<open>_get_ladder_data\<close>, drained. A document without \<^verbatim>\<open>ranksAndPools\<close> makes the \<^verbatim>\<open>for\<close>
  statement raise \<^verbatim>\<open>TypeError\<close>; one without \<^verbatim>\<open>ladderTeams\<close> raises it at the first
  entry, when \<^verbatim>\<open>None\<close> is indexed.
\<close>

definition get_ladder_data ::
  "Server \<Rightarrow> int \<Rightarrow> int \<Rightarrow> int \<Rightarrow> sc2api \<Rightarrow> (entry list \<times> error option) \<times> sc2api"
where
  "get_ladder_data server realmID profileID ladderID st =
     (let api_url = LadderUrl (Server_id server) realmID profileID ladderID
      in case get_access_token st of
           (Inl e, st1) \<Rightarrow> (([], Some e), st1)
         | (Inr token, st1) \<Rightarrow>
             (case perform_api_request api_url st1 of
                (Inl e, st2) \<Rightarrow> (([], Some e), st2)
              | (Inr (data, status'), st2) \<Rightarrow>
                  if status' \<noteq> 200 then (([], Some (InvalidApiResponse status')), st2)
                  else
                    (case League_get (league data) of
                       Inl e \<Rightarrow> (([], Some e), st2)
                     | Inr lg \<Rightarrow>
                         (case ranksAndPools data of
                            None \<Rightarrow> (([], Some TypeError), st2)
                          | Some [] \<Rightarrow> (([], None), st2)
                          | Some (meta_data # rest) \<Rightarrow>
                              (case ladderTeams data of
                                 None \<Rightarrow> (([], Some TypeError), st2)
                               | Some teams \<Rightarrow>
                                   (case for_ranks api_url ladderID lg teams realmID profileID
                                           (meta_data # rest) \<lparr>found_idx = - 1, used = []\<rparr>
                                           (log st2) of
                                      (r, l, logged) \<Rightarrow> (r, st2\<lparr>log := logged\<rparr>)))))))"

subsection \<open>The match history\<close>

text \<open>
  The loop of \<^verbatim>\<open>_get_match_history\<close>, lines 244 to 249; an entry of the history is the
  result and the date and time of the match.
\<close>

fun for_matches :: "string \<Rightarrow> match list \<Rightarrow> error + (Result \<times> int) list" where
  "for_matches scope [] = Inr []"
| "for_matches scope (m # ms) =
     (if match_type m = scope then
        (case Result_getitem (decision m) of
           Inl e \<Rightarrow> Inl e
         | Inr r \<Rightarrow>
             (case fromtimestamp (date m) of
                Inl e \<Rightarrow> Inl e
              | Inr played_at \<Rightarrow>
                  (case for_matches scope ms of
                     Inl e \<Rightarrow> Inl e
                   | Inr match_history \<Rightarrow> Inr ((r, played_at) # match_history))))
      else for_matches scope ms)"

definition get_match_history ::
  "Server \<Rightarrow> int \<Rightarrow> int \<Rightarrow> string \<Rightarrow> sc2api \<Rightarrow> (error + (Result \<times> int) list) \<times> sc2api"
where
  "get_match_history server realmID profileID scope st =
     (case get_access_token st of
        (Inl e, st1) \<Rightarrow> (Inl e, st1)
      | (Inr token, st1) \<Rightarrow>
          (case perform_api_request (MatchesUrl (Server_id server) realmID profileID) st1 of
             (Inl e, st2) \<Rightarrow> (Inl e, st2)
           | (Inr (data, status'), st2) \<Rightarrow>
               if status' \<noteq> 200 then (Inl (InvalidApiResponse status'), st2)
               else
                 (case matches data of
                    None \<Rightarrow> (Inr [], st2)
                  | Some ms \<Rightarrow> (for_matches scope ms, st2))))"

section \<open>Properties of the request executor\<close>

text \<open>
  A first attempt that is answered with a decodable body ends the call: the body, stamped
  with the time of decoding, and the status of the response are returned, whatever the
  status is, and nothing is counted as a retry.
\<close>

lemma perform_api_request_first_attempt:
  "sc \<noteq> 504 \<Longrightarrow>
   perform_api_request u
     (st\<lparr>session := \<lparr>status = sc, body = Some json, decoded_at = now\<rparr> ## s\<rparr>)
   = (Inr (json\<lparr>request_datetime := Some now\<rparr>, sc),
      st\<lparr>session := s, sent := sent st @ [u], request_count := request_count st + 1\<rparr>)"
  by (simp add: perform_api_request_def for_retries.simps session_get_def)

text \<open>
  Ten gateway timeouts in a row: the call degrades to the empty payload with status 0 and
  logs the description of the last transient error.
\<close>

lemma perform_api_request_ten_timeouts:
  "perform_api_request u
     (st\<lparr>session := replicate 10 \<lparr>status = 504, body = b, decoded_at = d\<rparr> @- s\<rparr>)
   = (Inr (empty_payload, 0),
      st\<lparr>session := s, sent := sent st @ replicate 10 u,
         request_count := request_count st + 10, retry_count := retry_count st + 10,
         log := log st @ [Warning ''API timeout'']\<rparr>)"
  by (simp add: perform_api_request_def for_retries.simps session_get_def eval_nat_numeral)

text \<open>
  Claim C1. The claim says that nine gateway timeouts followed by a 200 response with a
  decodable body give the decoded payload with status 200 and a retry counter of 9. The
  code does count 9 retries, but it tests \<^verbatim>\<open>retries == 9\<close> after the loop, which also holds
  when the tenth attempt succeeded and left the loop by \<^verbatim>\<open>break\<close>: the decoded payload is
  replaced by the empty one, the status by 0, and the warning of the ninth timeout is
  logged.
\<close>

theorem perform_api_request_nine_timeouts_then_200:
  "perform_api_request u
     (st\<lparr>session := replicate 9 \<lparr>status = 504, body = b, decoded_at = d\<rparr>
          @- (\<lparr>status = 200, body = Some json, decoded_at = now\<rparr> ## s)\<rparr>)
   = (Inr (empty_payload, 0),
      st\<lparr>session := s, sent := sent st @ replicate 10 u,
         request_count := request_count st + 10, retry_count := retry_count st + 9,
         log := log st @ [Warning ''API timeout'']\<rparr>)"
  by (simp add: perform_api_request_def for_retries.simps session_get_def eval_nat_numeral)

section \<open>Properties of the profile-URL parser\<close>

lemma parse_profile_url_generic:
  "parse_profile_url ''https://starcraft2.com/en-gb/profile/2/1/4545534/'' = Inr (Europe, 1, 4545534)"
  by (simp add: parse_profile_url_def p1_def optional_def any_char_def one_of_def lower_def
      is_word_def is_digit_def int_of_digits_def digit_value_def Server_of_value_def)

lemma parse_profile_url_region:
  "parse_profile_url ''http://US.battle.net/sc2/en/profile/4545534/2/pressure''
   = Inr (America, 2, 4545534)"
  by (simp add: parse_profile_url_def p1_def p2_def optional_def any_char_def one_of_def
      lower_def is_word_def is_digit_def int_of_digits_def digit_value_def Server_of_value_def)

lemma parse_profile_url_invalid:
  "parse_profile_url ''http://kr.battle.net/sc2/en/profile/4545534/2/pressure''
   = Inl (ValueError ''Invalid profile url http://kr.battle.net/sc2/en/profile/4545534/2/pressure'')"
  by (simp add: parse_profile_url_def p1_def p2_def optional_def any_char_def one_of_def
      lower_def is_word_def is_digit_def int_of_digits_def digit_value_def Server_of_value_def)

text \<open>
  Claim C7. The claim says that for every string of the two URL grammars the parser returns
  the triple encoded in it. The generic pattern admits the server codes 1 to 5, but the
  enumeration \<^verbatim>\<open>Server\<close> has the values 0 to 3 only: for the codes 4 and 5 the pattern
  matches and \<^verbatim>\<open>model.Server(int(m.group(1)))\<close> raises \<^verbatim>\<open>ValueError\<close>, so no triple is
  returned.
\<close>

theorem parse_profile_url_server_4_5:
  "parse_profile_url ''https://starcraft2.com/profile/5/1/123''
     = Inl (ValueError ''not a valid Server'')
   \<and> parse_profile_url ''https://starcraft2.com/en-us/profile/4/2/987654/''
     = Inl (ValueError ''not a valid Server'')
   \<and> p1 ''https://starcraft2.com/profile/5/1/123'' = Some (CHR ''5'', CHR ''1'', ''123'')"
  by (simp add: parse_profile_url_def p1_def optional_def any_char_def one_of_def lower_def
      is_word_def is_digit_def int_of_digits_def digit_value_def Server_of_value_def)

section \<open>Properties of the reconciliation\<close>

lemma py_index_nonneg:
  "0 \<le> i \<Longrightarrow> i < int (length xs) \<Longrightarrow> py_index xs i = Some (xs ! nat i)"
  by (simp add: py_index_def)

lemma py_index_minus_one:
  "xs \<noteq> [] \<Longrightarrow> py_index xs (- 1) = Some (last xs)"
  by (cases xs rule: rev_cases) (simp_all add: py_index_def nth_append)

text \<open>
  Claim C10. For a snapshot with at least one team, an entry of rank 0 claims the index
  \<open>-1\<close>, which Python reads as the last team: when the first member of that team is the
  target profile, the entry is matched with the last team, \<open>-1\<close> is appended to the
  consumed indices, the forward scan does not run (the watermark is unchanged) and nothing
  is raised.
\<close>

theorem find_team_rank_zero:
  assumes "teams \<noteq> []"
    and "teamMembers (last teams) = player # others"
    and "member_id player = profileID"
    and "realm player = realmID"
    and "rank meta_data = 0"
  shows "claimed_team teams realmID profileID (rank meta_data - 1) = Some (last teams, player)
       \<and> find_team teams realmID profileID l meta_data
           = Inr (last teams, player, l\<lparr>used := used l @ [- 1]\<rparr>)"
  using assms by (simp add: find_team_def claimed_team_def py_index_minus_one)

theorem find_team_rank_zero_witness:
  "find_team
     [\<lparr>teamMembers = [\<lparr>member_id = 7, realm = 1, favoriteRace = None, displayName = ''a''\<rparr>],
       wins = 1, losses = 2, team_mmr = 3000, joinTimestamp = 10\<rparr>,
      \<lparr>teamMembers = [\<lparr>member_id = 42, realm = 1, favoriteRace = None, displayName = ''b''\<rparr>],
       wins = 3, losses = 4, team_mmr = 3500, joinTimestamp = 20\<rparr>]
     1 42 \<lparr>found_idx = - 1, used = []\<rparr> \<lparr>rank = 0, mmr = 3500\<rparr>
   = Inr (\<lparr>teamMembers = [\<lparr>member_id = 42, realm = 1, favoriteRace = None, displayName = ''b''\<rparr>],
            wins = 3, losses = 4, team_mmr = 3500, joinTimestamp = 20\<rparr>,
          \<lparr>member_id = 42, realm = 1, favoriteRace = None, displayName = ''b''\<rparr>,
          \<lparr>found_idx = - 1, used = [- 1]\<rparr>)"
  using find_team_rank_zero
    [of "[\<lparr>teamMembers = [\<lparr>member_id = 7, realm = 1, favoriteRace = None, displayName = ''a''\<rparr>],
           wins = 1, losses = 2, team_mmr = 3000, joinTimestamp = 10\<rparr>,
          \<lparr>teamMembers = [\<lparr>member_id = 42, realm = 1, favoriteRace = None, displayName = ''b''\<rparr>],
           wins = 3, losses = 4, team_mmr = 3500, joinTimestamp = 20\<rparr>]"
        "\<lparr>member_id = 42, realm = 1, favoriteRace = None, displayName = ''b''\<rparr>" "[]"
        42 1 "\<lparr>rank = 0, mmr = 3500\<rparr>" "\<lparr>found_idx = - 1, used = []\<rparr>"]
  by simp

text \<open>
  When the claimed index gives no match and the forward scan ends without one, the handler
  evaluates \<^verbatim>\<open>r.url\<close> and raises \<^verbatim>\<open>NameError\<close>; the reconciliation never fails with
  \<^verbatim>\<open>InvalidApiResponse\<close>.
\<close>

lemma scan_not_InvalidApiResponse:
  "scan teams realmID profileID used_idx team_idx \<noteq> Inl (InvalidApiResponse x)"
proof (induction teams realmID profileID used_idx team_idx rule: scan.induct)
  case (1 teams realmID profileID used_idx team_idx)
  then show ?case
    by (subst scan.simps) (auto split: option.splits list.splits)
qed

lemma find_team_not_InvalidApiResponse:
  "find_team teams realmID profileID l meta_data \<noteq> Inl (InvalidApiResponse x)"
  using scan_not_InvalidApiResponse [of teams realmID profileID "used l" "found_idx l + 1" x]
  by (auto simp: find_team_def Let_def split: option.splits sum.splits)

text \<open>
  Claim C2. The claim says that a snapshot in which no team matches the target profile makes
  the ladder-data fetch fail with the failure of a data inconsistency, which the source
  spells \<^verbatim>\<open>InvalidApiResponse\<close>. The fetch does fail before it yields an entry, but with
  \<^verbatim>\<open>NameError\<close>: the argument \<^verbatim>\<open>r.url\<close> of the \<^verbatim>\<open>raise\<close> statement names a variable that
  does not exist. Here the token is cached and checked, and the ladder request is answered
  with status 200 and one team of another profile.
\<close>

theorem get_ladder_data_no_matching_team:
  "fst (get_ladder_data Europe 1 42 7
     (st\<lparr>access_token := Some ''token'', access_token_checked := True,
         session :=
           \<lparr>status = 200,
            body = Some (empty_payload
              \<lparr>ranksAndPools := Some [\<lparr>rank = 1, mmr = 3500\<rparr>],
               ladderTeams := Some
                 [\<lparr>teamMembers =
                     [\<lparr>member_id = 43, realm = 1, favoriteRace = Some ''Prot'',
                       displayName = ''other''\<rparr>],
                   wins = 10, losses = 5, team_mmr = 3500, joinTimestamp = 1000\<rparr>]\<rparr>),
            decoded_at = now\<rparr> ## s\<rparr>))
   = ([], Some (NameError ''r''))"
  by (simp add: get_ladder_data_def get_access_token_def perform_api_request_def
      for_retries.simps session_get_def empty_payload_def find_team_def claimed_team_def py_index_def scan.simps)

text \<open>
  Claim C3. The claim says that the claimed-index path accepts a team only if its index has
  not been consumed, so that the indices matched with the entries of one snapshot are
  pairwise distinct. The \<^verbatim>\<open>try\<close> block appends the claimed index to \<^verbatim>\<open>used\<close> but never
  tests it; only the forward scan does. Two entries that both claim rank 1 are both
  matched with team 0.
\<close>

theorem for_ranks_same_rank_twice:
  "for_ranks api_url 7 lg
     [\<lparr>teamMembers =
         [\<lparr>member_id = 42, realm = 1, favoriteRace = Some ''Prot'', displayName = ''p''\<rparr>],
       wins = 10, losses = 5, team_mmr = 3500, joinTimestamp = 1000\<rparr>]
     1 42 [\<lparr>rank = 1, mmr = 3500\<rparr>, \<lparr>rank = 1, mmr = 3500\<rparr>]
     \<lparr>found_idx = - 1, used = []\<rparr> logged
   = (([\<lparr>entry_mmr = 3500, entry_race = Protoss, games = 15, entry_wins = 10,
         entry_losses = 5, name = ''p'', joined = 1000, ladder_id = 7, entry_league = lg\<rparr>,
        \<lparr>entry_mmr = 3500, entry_race = Protoss, games = 15, entry_wins = 10,
         entry_losses = 5, name = ''p'', joined = 1000, ladder_id = 7, entry_league = lg\<rparr>],
       None),
      \<lparr>found_idx = - 1, used = [0, 0]\<rparr>, logged)"
  by (simp add: find_team_def claimed_team_def py_index_def Race_members_def lower_def
      fromtimestamp_def)

section \<open>Properties of the enumerations\<close>

lemma Result_getitem_unknown:
  "Result_getitem ''Left'' = Inl (KeyError ''Left'')"
  by (simp add: Result_getitem_def Result_members_def)

text \<open>
  Claim C5, as the claim states it: an unknown code never raises an error. It fails for a
  race or a league whose first letter starts no member's name.
\<close>

theorem enum_get_unknown_code_raises:
  "Race_get (Some ''Xel'') = Inl (ValueError ''Unknown race Xel.'')
   \<and> League_get (Some ''CHALLENGER'') = Inl (ValueError ''Unknown league CHALLENGER.'')"
  by (simp add: Race_members_def League_members_def lower_def)

text \<open>
  Claim C5, amended. \<^verbatim>\<open>Race.get\<close> and \<^verbatim>\<open>League.get\<close> fall back to the sentinel
  (\<open>Random\<close>, \<open>Unranked\<close>) for a missing or empty code only. A code that is not empty is
  mapped by its first letter, case ignored, to the first member in the order of
  declaration whose name starts with that letter (so \<open>g\<close> is always \<open>Gold\<close>), and a code
  whose first letter starts no member's name raises \<^verbatim>\<open>ValueError\<close>.
\<close>

theorem enum_get_by_first_letter:
  "Race_get code =
     (case code of
        None \<Rightarrow> Inr Random
      | Some [] \<Rightarrow> Inr Random
      | Some (c # cs) \<Rightarrow>
          if lower c = CHR ''r'' then Inr Random
          else if lower c = CHR ''p'' then Inr Protoss
          else if lower c = CHR ''t'' then Inr Terran
          else if lower c = CHR ''z'' then Inr Zerg
          else Inl (ValueError (''Unknown race '' @ c # cs @ ''.'')))
   \<and> League_get code =
     (case code of
        None \<Rightarrow> Inr Unranked
      | Some [] \<Rightarrow> Inr Unranked
      | Some (c # cs) \<Rightarrow>
          if lower c = CHR ''u'' then Inr Unranked
          else if lower c = CHR ''b'' then Inr Bronze
          else if lower c = CHR ''s'' then Inr Silver
          else if lower c = CHR ''g'' then Inr Gold
          else if lower c = CHR ''p'' then Inr Platinum
          else if lower c = CHR ''d'' then Inr Diamond
          else if lower c = CHR ''m'' then Inr Master
          else Inl (ValueError (''Unknown league '' @ c # cs @ ''.'')))"
proof -
  have l: "lower CHR ''R'' = CHR ''r''" "lower CHR ''P'' = CHR ''p''"
    "lower CHR ''T'' = CHR ''t''" "lower CHR ''Z'' = CHR ''z''"
    "lower CHR ''U'' = CHR ''u''" "lower CHR ''B'' = CHR ''b''"
    "lower CHR ''S'' = CHR ''s''" "lower CHR ''G'' = CHR ''g''"
    "lower CHR ''D'' = CHR ''d''" "lower CHR ''M'' = CHR ''m''"
    by (simp_all add: lower_def)
  have "Race_get code = (case code of
        None \<Rightarrow> Inr Random
      | Some [] \<Rightarrow> Inr Random
      | Some (c # cs) \<Rightarrow>
          if lower c = CHR ''r'' then Inr Random
          else if lower c = CHR ''p'' then Inr Protoss
          else if lower c = CHR ''t'' then Inr Terran
          else if lower c = CHR ''z'' then Inr Zerg
          else Inl (ValueError (''Unknown race '' @ c # cs @ ''.'')))"
    by (auto simp: Race_members_def l split: option.splits list.splits)
  moreover have "League_get code = (case code of
        None \<Rightarrow> Inr Unranked
      | Some [] \<Rightarrow> Inr Unranked
      | Some (c # cs) \<Rightarrow>
          if lower c = CHR ''u'' then Inr Unranked
          else if lower c = CHR ''b'' then Inr Bronze
          else if lower c = CHR ''s'' then Inr Silver
          else if lower c = CHR ''g'' then Inr Gold
          else if lower c = CHR ''p'' then Inr Platinum
          else if lower c = CHR ''d'' then Inr Diamond
          else if lower c = CHR ''m'' then Inr Master
          else Inl (ValueError (''Unknown league '' @ c # cs @ ''.'')))"
    by (auto simp: League_members_def l split: option.splits list.splits)
  ultimately show ?thesis by simp
qed

section \<open>Properties of the token manager\<close>

text \<open>The executor touches the counters, the transport and the log only.\<close>

lemma session_get_frame:
  "session_get u st = (resp, st') \<Longrightarrow>
   access_token st' = access_token st \<and> access_token_checked st' = access_token_checked st
   \<and> config st' = config st \<and> key st' = key st \<and> secret st' = secret st"
  by (auto simp: session_get_def)

lemma for_retries_frame:
  "for_retries u retries rest error st = (r, st') \<Longrightarrow>
   access_token st' = access_token st \<and> access_token_checked st' = access_token_checked st
   \<and> config st' = config st \<and> key st' = key st \<and> secret st' = secret st"
proof (induction rest arbitrary: retries error st)
  case Nil
  then show ?case
    by (subst (asm) for_retries.simps)
       (auto simp: session_get_def Let_def split: if_splits option.splits)
next
  case (Cons a rest)
  from Cons.prems show ?case
    by (subst (asm) for_retries.simps)
       (auto simp: session_get_def Let_def split: if_splits option.splits dest!: Cons.IH)
qed

lemma perform_api_request_frame:
  assumes "perform_api_request u st = (r, st')"
  shows "access_token st' = access_token st \<and> access_token_checked st' = access_token_checked st
   \<and> config st' = config st \<and> key st' = key st \<and> secret st' = secret st"
proof -
  obtain retries error outcome st1 where
    f: "for_retries u 0 [1, 2, 3, 4, 5, 6, 7, 8, 9] '''' st = ((retries, error, outcome), st1)"
    by (metis prod_cases3 surj_pair)
  from for_retries_frame [OF f] assms f show ?thesis
    by (auto simp: perform_api_request_def split: if_splits option.splits)
qed

text \<open>
  Claim C8. The token refresh is reached from \<^verbatim>\<open>get_access_token\<close> either because no token is
  set, or because the token is set, not yet checked, and the check fails; \<open>st0\<close> is the
  state in which \<^verbatim>\<open>receive_new_access_token\<close> starts. If the refresh request ends with a
  status other than 200, \<^verbatim>\<open>receive_new_access_token\<close> raises \<^verbatim>\<open>InvalidApiResponse\<close> with that
  status, and so does \<^verbatim>\<open>get_access_token\<close>, in the state that the one request has left:
  nothing is tried again. The token, its flag and the stored configuration are those from
  before the call.
\<close>

theorem token_refresh_rejected:
  assumes "perform_api_request (OAuthToken (key st0) (secret st0)) st0 = (Inr (data, sc), st')"
    and "sc \<noteq> 200"
    and "py_not (access_token st) \<and> st0 = st
       \<or> \<not> py_not (access_token st) \<and> \<not> access_token_checked st
         \<and> check_access_token (access_token st) st = (False, st0)"
  shows "receive_new_access_token st0 = (Inl (InvalidApiResponse sc), st')
       \<and> get_access_token st = (Inl (InvalidApiResponse sc), st')
       \<and> access_token st' = access_token st
       \<and> access_token_checked st' = access_token_checked st
       \<and> config st' = config st"
proof -
  have r: "receive_new_access_token st0 = (Inl (InvalidApiResponse sc), st')"
    using assms(1,2) by (simp add: receive_new_access_token_def)
  have f: "access_token st' = access_token st0"
    "access_token_checked st' = access_token_checked st0" "config st' = config st0"
    using perform_api_request_frame [OF assms(1)] by simp_all
  from assms(3) show ?thesis
  proof
    assume "py_not (access_token st) \<and> st0 = st"
    with r f show ?thesis by (simp add: get_access_token_def)
  next
    assume c: "\<not> py_not (access_token st) \<and> \<not> access_token_checked st
         \<and> check_access_token (access_token st) st = (False, st0)"
    then have "access_token st0 = access_token st" "config st0 = config st"
      "access_token_checked st0 = False"
      by (auto simp: check_access_token_def session_get_def Let_def)
    with c r f show ?thesis by (simp add: get_access_token_def)
  qed
qed

theorem token_refresh_rejected_witness:
  "get_access_token
     \<lparr>key = ''k'', secret = ''s'', access_token = Some ''old'', access_token_checked = False,
      request_count = 0, retry_count = 0,
      session = \<lparr>status = 401, body = None, decoded_at = 1\<rparr>
        ## \<lparr>status = 401, body = Some empty_payload, decoded_at = 2\<rparr>
        ## sconst \<lparr>status = 200, body = None, decoded_at = 3\<rparr>,
      sent = [], config = Map.empty, log = []\<rparr>
   = (Inl (InvalidApiResponse 401),
      \<lparr>key = ''k'', secret = ''s'', access_token = Some ''old'', access_token_checked = False,
       request_count = 2, retry_count = 0,
       session = sconst \<lparr>status = 200, body = None, decoded_at = 3\<rparr>,
       sent = [OAuthCheckToken (Some ''old''), OAuthToken ''k'' ''s''],
       config = Map.empty, log = []\<rparr>)"
  using token_refresh_rejected
    [of "\<lparr>key = ''k'', secret = ''s'', access_token = Some ''old'', access_token_checked = False,
          request_count = 1, retry_count = 0,
          session = \<lparr>status = 401, body = Some empty_payload, decoded_at = 2\<rparr>
            ## sconst \<lparr>status = 200, body = None, decoded_at = 3\<rparr>,
          sent = [OAuthCheckToken (Some ''old'')], config = Map.empty, log = []\<rparr>"
        "empty_payload\<lparr>request_datetime := Some 2\<rparr>" 401
        "\<lparr>key = ''k'', secret = ''s'', access_token = Some ''old'', access_token_checked = False,
          request_count = 2, retry_count = 0,
          session = sconst \<lparr>status = 200, body = None, decoded_at = 3\<rparr>,
          sent = [OAuthCheckToken (Some ''old''), OAuthToken ''k'' ''s''],
          config = Map.empty, log = []\<rparr>"
        "\<lparr>key = ''k'', secret = ''s'', access_token = Some ''old'', access_token_checked = False,
          request_count = 0, retry_count = 0,
          session = \<lparr>status = 401, body = None, decoded_at = 1\<rparr>
            ## \<lparr>status = 401, body = Some empty_payload, decoded_at = 2\<rparr>
            ## sconst \<lparr>status = 200, body = None, decoded_at = 3\<rparr>,
          sent = [], config = Map.empty, log = []\<rparr>"]
  by (simp add: perform_api_request_def for_retries.simps session_get_def check_access_token_def)

section \<open>The forward scan\<close>

lemma scan_Some_team:
  "scan teams realmID profileID used_idx team_idx = Inr (Some (i, team, player)) \<Longrightarrow>
   py_index teams i = Some team \<and> (\<exists>others. teamMembers team = player # others)"
proof (induction teams realmID profileID used_idx team_idx rule: scan.induct)
  case (1 teams realmID profileID used_idx team_idx)
  from "1.prems" show ?case
    by (subst (asm) scan.simps) (auto split: if_splits option.splits list.splits dest: "1.IH")
qed

text \<open>
  What a successful scan from \<open>team_idx\<close> has established: the index it returns is the first
  one from \<open>team_idx\<close> on that is not consumed and whose team starts with the target profile,
  and every team before it has a member.
\<close>

lemma scan_Some_first:
  "scan teams realmID profileID used_idx team_idx = Inr (Some (i, team, player)) \<Longrightarrow>
   0 \<le> team_idx \<Longrightarrow>
   team_idx \<le> i \<and> i < int (length teams) \<and> team = teams ! nat i
   \<and> (\<exists>others. teamMembers team = player # others)
   \<and> i \<notin> set used_idx \<and> member_id player = profileID \<and> realm player = realmID
   \<and> (\<forall>j. team_idx \<le> j \<and> j < i \<longrightarrow>
         (\<exists>q qs. teamMembers (teams ! nat j) = q # qs
            \<and> \<not> (j \<notin> set used_idx \<and> member_id q = profileID \<and> realm q = realmID)))"
proof (induction teams realmID profileID used_idx team_idx rule: scan.induct)
  case (1 teams realmID profileID used_idx team_idx)
  from "1.prems" have lt: "team_idx < int (length teams)"
    by (subst (asm) scan.simps) (auto split: if_splits)
  with "1.prems" have idx: "py_index teams team_idx = Some (teams ! nat team_idx)"
    by (simp add: py_index_nonneg)
  from "1.prems" lt idx obtain q qs where q: "teamMembers (teams ! nat team_idx) = q # qs"
    by (subst (asm) scan.simps) (auto split: list.splits)
  show ?case
  proof (cases "team_idx \<notin> set used_idx \<and> member_id q = profileID \<and> realm q = realmID")
    case True
    with "1.prems" lt idx q have "i = team_idx" "team = teams ! nat team_idx" "player = q"
      by (subst (asm) scan.simps, simp)+
    with True lt q show ?thesis by auto
  next
    case False
    with "1.prems" lt idx q
    have rec: "scan teams realmID profileID used_idx (team_idx + 1) = Inr (Some (i, team, player))"
      by (subst (asm) scan.simps) auto
    from "1.IH" [OF lt idx q _ rec] False "1.prems"(2)
    have ih: "team_idx + 1 \<le> i \<and> i < int (length teams) \<and> team = teams ! nat i
      \<and> (\<exists>others. teamMembers team = player # others)
      \<and> i \<notin> set used_idx \<and> member_id player = profileID \<and> realm player = realmID
      \<and> (\<forall>j. team_idx + 1 \<le> j \<and> j < i \<longrightarrow>
         (\<exists>q qs. teamMembers (teams ! nat j) = q # qs
            \<and> \<not> (j \<notin> set used_idx \<and> member_id q = profileID \<and> realm q = realmID)))"
      by auto
    have "\<exists>q qs. teamMembers (teams ! nat j) = q # qs
            \<and> \<not> (j \<notin> set used_idx \<and> member_id q = profileID \<and> realm q = realmID)"
      if "team_idx \<le> j \<and> j < i" for j
    proof (cases "j = team_idx")
      case True
      with q False show ?thesis by auto
    next
      case False
      with that ih show ?thesis by auto
    qed
    with ih show ?thesis by auto
  qed
qed

text \<open>The converse: the first such index is what the scan returns.\<close>

lemma scan_first_Some:
  "0 \<le> team_idx \<Longrightarrow> team_idx \<le> i \<Longrightarrow> i < int (length teams) \<Longrightarrow>
   teamMembers (teams ! nat i) = player # others \<Longrightarrow>
   i \<notin> set used_idx \<Longrightarrow> member_id player = profileID \<Longrightarrow> realm player = realmID \<Longrightarrow>
   \<forall>j. team_idx \<le> j \<and> j < i \<longrightarrow>
         (\<exists>q qs. teamMembers (teams ! nat j) = q # qs
            \<and> \<not> (j \<notin> set used_idx \<and> member_id q = profileID \<and> realm q = realmID)) \<Longrightarrow>
   scan teams realmID profileID used_idx team_idx = Inr (Some (i, teams ! nat i, player))"
proof (induction teams realmID profileID used_idx team_idx rule: scan.induct)
  case (1 teams realmID profileID used_idx team_idx)
  from "1.prems" have lt: "team_idx < int (length teams)" by simp
  with "1.prems" have idx: "py_index teams team_idx = Some (teams ! nat team_idx)"
    by (simp add: py_index_nonneg)
  show ?case
  proof (cases "team_idx = i")
    case True
    with "1.prems" lt idx show ?thesis by (subst scan.simps) simp
  next
    case False
    with "1.prems" have "team_idx \<le> team_idx \<and> team_idx < i" by simp
    with "1.prems"(8) obtain q qs where q: "teamMembers (teams ! nat team_idx) = q # qs"
      and nq: "\<not> (team_idx \<notin> set used_idx \<and> member_id q = profileID \<and> realm q = realmID)"
      by blast
    have "scan teams realmID profileID used_idx (team_idx + 1)
        = Inr (Some (i, teams ! nat i, player))"
      using "1.IH" [OF lt idx q nq] "1.prems" False by auto
    with lt idx q nq show ?thesis by (subst scan.simps) auto
  qed
qed

section \<open>Matching one entry\<close>

text \<open>
  Every entry that is matched appends one index to \<^verbatim>\<open>used\<close>, and the team it is matched with
  is the team that Python reads at that index.
\<close>

lemma find_team_used:
  assumes "find_team teams realmID profileID l meta_data = Inr (team, player, l')"
  shows "\<exists>i. used l' = used l @ [i] \<and> py_index teams i = Some team
           \<and> (\<exists>others. teamMembers team = player # others)"
proof (cases "claimed_team teams realmID profileID (rank meta_data - 1)")
  case None
  with assms obtain i where
    s: "scan teams realmID profileID (used l) (found_idx l + 1) = Inr (Some (i, team, player))"
    and l': "l' = l\<lparr>found_idx := i, used := used l @ [i]\<rparr>"
    by (auto simp: find_team_def Let_def split: sum.splits option.splits)
  from scan_Some_team [OF s] l' show ?thesis by auto
next
  case (Some a)
  with assms show ?thesis
    by (auto simp: find_team_def Let_def claimed_team_def split: option.splits list.splits if_splits)
qed

text \<open>
  Claim C4, as the claim states it: the forward scan covers the indices strictly greater
  than the highest index matched so far by either step. In this snapshot of three teams the
  first entry (rank 3) is matched with index 2 by its claimed index; the claimed index of
  the second entry (rank 1) is a team of another profile, and the scan, which starts at
  index 0 because the claimed-index step does not move the watermark, accepts index 1.
\<close>

theorem find_team_scan_below_matched_index:
  "find_team
     [\<lparr>teamMembers = [\<lparr>member_id = 7, realm = 1, favoriteRace = None, displayName = ''a''\<rparr>],
       wins = 1, losses = 2, team_mmr = 3000, joinTimestamp = 10\<rparr>,
      \<lparr>teamMembers = [\<lparr>member_id = 42, realm = 1, favoriteRace = None, displayName = ''b''\<rparr>],
       wins = 3, losses = 4, team_mmr = 3500, joinTimestamp = 20\<rparr>,
      \<lparr>teamMembers = [\<lparr>member_id = 42, realm = 1, favoriteRace = None, displayName = ''c''\<rparr>],
       wins = 5, losses = 6, team_mmr = 3600, joinTimestamp = 30\<rparr>]
     1 42 \<lparr>found_idx = - 1, used = []\<rparr> \<lparr>rank = 3, mmr = 3600\<rparr>
   = Inr (\<lparr>teamMembers = [\<lparr>member_id = 42, realm = 1, favoriteRace = None, displayName = ''c''\<rparr>],
            wins = 5, losses = 6, team_mmr = 3600, joinTimestamp = 30\<rparr>,
          \<lparr>member_id = 42, realm = 1, favoriteRace = None, displayName = ''c''\<rparr>,
          \<lparr>found_idx = - 1, used = [2]\<rparr>)
   \<and> find_team
     [\<lparr>teamMembers = [\<lparr>member_id = 7, realm = 1, favoriteRace = None, displayName = ''a''\<rparr>],
       wins = 1, losses = 2, team_mmr = 3000, joinTimestamp = 10\<rparr>,
      \<lparr>teamMembers = [\<lparr>member_id = 42, realm = 1, favoriteRace = None, displayName = ''b''\<rparr>],
       wins = 3, losses = 4, team_mmr = 3500, joinTimestamp = 20\<rparr>,
      \<lparr>teamMembers = [\<lparr>member_id = 42, realm = 1, favoriteRace = None, displayName = ''c''\<rparr>],
       wins = 5, losses = 6, team_mmr = 3600, joinTimestamp = 30\<rparr>]
     1 42 \<lparr>found_idx = - 1, used = [2]\<rparr> \<lparr>rank = 1, mmr = 3500\<rparr>
   = Inr (\<lparr>teamMembers = [\<lparr>member_id = 42, realm = 1, favoriteRace = None, displayName = ''b''\<rparr>],
            wins = 3, losses = 4, team_mmr = 3500, joinTimestamp = 20\<rparr>,
          \<lparr>member_id = 42, realm = 1, favoriteRace = None, displayName = ''b''\<rparr>,
          \<lparr>found_idx = 1, used = [2, 1]\<rparr>)
   \<and> \<not> Max (set [2 :: int]) < 1"
  by (simp add: find_team_def claimed_team_def py_index_def scan.simps)

text \<open>
  Claim C4, amended. The watermark \<^verbatim>\<open>found_idx\<close> is the index accepted by the latest forward
  scan (\<open>-1\<close> before any); the claimed-index step leaves it alone. When the claimed-index
  step fails for an entry (the claimed index is out of range, the team there has no
  member, or its first member is not the target profile), the indices above the watermark
  are scanned in increasing order. The entry is matched exactly when this scan reaches an
  index that is not in \<^verbatim>\<open>used\<close> and whose team starts with the target profile, every team
  at a lower scanned index having at least one member (a team without members that the
  scan meets first raises \<^verbatim>\<open>IndexError\<close>): the first such index is accepted, it is appended
  to \<^verbatim>\<open>used\<close>, and the watermark is set to it.
\<close>

theorem find_team_forward_scan:
  assumes "claimed_team teams realmID profileID (rank meta_data - 1) = None"
    and "- 1 \<le> found_idx l"
  shows "find_team teams realmID profileID l meta_data = Inr (team, player, l') \<longleftrightarrow>
     (\<exists>i. found_idx l < i \<and> i < int (length teams) \<and> team = teams ! nat i
        \<and> (\<exists>others. teamMembers team = player # others)
        \<and> i \<notin> set (used l) \<and> member_id player = profileID \<and> realm player = realmID
        \<and> (\<forall>j. found_idx l < j \<and> j < i \<longrightarrow>
              (\<exists>q qs. teamMembers (teams ! nat j) = q # qs
                 \<and> \<not> (j \<notin> set (used l) \<and> member_id q = profileID \<and> realm q = realmID)))
        \<and> l' = l\<lparr>found_idx := i, used := used l @ [i]\<rparr>)"
    (is "?lhs \<longleftrightarrow> ?rhs")
proof
  assume ?lhs
  with assms(1) obtain i where
    s: "scan teams realmID profileID (used l) (found_idx l + 1) = Inr (Some (i, team, player))"
    and l': "l' = l\<lparr>found_idx := i, used := used l @ [i]\<rparr>"
    by (auto simp: find_team_def Let_def split: sum.splits option.splits)
  from assms(2) have "0 \<le> found_idx l + 1" by simp
  from scan_Some_first [OF s this] l' show ?rhs
    by (intro exI [of _ i]) auto
next
  assume ?rhs
  then obtain i others where i: "found_idx l < i" "i < int (length teams)" "team = teams ! nat i"
    "teamMembers team = player # others" "i \<notin> set (used l)" "member_id player = profileID"
    "realm player = realmID"
    "\<forall>j. found_idx l < j \<and> j < i \<longrightarrow>
              (\<exists>q qs. teamMembers (teams ! nat j) = q # qs
                 \<and> \<not> (j \<notin> set (used l) \<and> member_id q = profileID \<and> realm q = realmID))"
    "l' = l\<lparr>found_idx := i, used := used l @ [i]\<rparr>"
    by blast
  have "scan teams realmID profileID (used l) (found_idx l + 1)
      = Inr (Some (i, teams ! nat i, player))"
  proof (rule scan_first_Some)
    show "0 \<le> found_idx l + 1" using assms(2) by simp
    show "found_idx l + 1 \<le> i" using i(1) by simp
    show "i < int (length teams)" by (rule i(2))
    show "teamMembers (teams ! nat i) = player # others" using i(3,4) by simp
    show "i \<notin> set (used l)" by (rule i(5))
    show "member_id player = profileID" by (rule i(6))
    show "realm player = realmID" by (rule i(7))
    show "\<forall>j. found_idx l + 1 \<le> j \<and> j < i \<longrightarrow>
              (\<exists>q qs. teamMembers (teams ! nat j) = q # qs
                 \<and> \<not> (j \<notin> set (used l) \<and> member_id q = profileID \<and> realm q = realmID))"
      using i(8) by auto
  qed
  with assms(1) i(3,9) show ?lhs
    by (simp add: find_team_def)
qed

theorem find_team_forward_scan_witness:
  "claimed_team
     [\<lparr>teamMembers = [\<lparr>member_id = 7, realm = 1, favoriteRace = None, displayName = ''a''\<rparr>],
       wins = 1, losses = 2, team_mmr = 3000, joinTimestamp = 10\<rparr>,
      \<lparr>teamMembers = [\<lparr>member_id = 42, realm = 1, favoriteRace = None, displayName = ''b''\<rparr>],
       wins = 3, losses = 4, team_mmr = 3500, joinTimestamp = 20\<rparr>]
     1 42 (rank \<lparr>rank = 5, mmr = 3500\<rparr> - 1) = None
   \<and> find_team
     [\<lparr>teamMembers = [\<lparr>member_id = 7, realm = 1, favoriteRace = None, displayName = ''a''\<rparr>],
       wins = 1, losses = 2, team_mmr = 3000, joinTimestamp = 10\<rparr>,
      \<lparr>teamMembers = [\<lparr>member_id = 42, realm = 1, favoriteRace = None, displayName = ''b''\<rparr>],
       wins = 3, losses = 4, team_mmr = 3500, joinTimestamp = 20\<rparr>]
     1 42 \<lparr>found_idx = - 1, used = []\<rparr> \<lparr>rank = 5, mmr = 3500\<rparr>
   = Inr (\<lparr>teamMembers = [\<lparr>member_id = 42, realm = 1, favoriteRace = None, displayName = ''b''\<rparr>],
            wins = 3, losses = 4, team_mmr = 3500, joinTimestamp = 20\<rparr>,
          \<lparr>member_id = 42, realm = 1, favoriteRace = None, displayName = ''b''\<rparr>,
          \<lparr>found_idx = 1, used = [1]\<rparr>)"
proof -
  let ?teams =
    "[\<lparr>teamMembers = [\<lparr>member_id = 7, realm = 1, favoriteRace = None, displayName = ''a''\<rparr>],
       wins = 1, losses = 2, team_mmr = 3000, joinTimestamp = 10\<rparr>,
      \<lparr>teamMembers = [\<lparr>member_id = 42, realm = 1, favoriteRace = None, displayName = ''b''\<rparr>],
       wins = 3, losses = 4, team_mmr = 3500, joinTimestamp = 20\<rparr>]"
  let ?md = "\<lparr>rank = 5, mmr = 3500\<rparr>"
  let ?l = "\<lparr>found_idx = - 1, used = []\<rparr>"
  have c: "claimed_team ?teams 1 42 (rank ?md - 1) = None"
    by (simp add: claimed_team_def py_index_def)
  have w: "- 1 \<le> found_idx ?l" by simp
  have "\<exists>i. found_idx ?l < i \<and> i < int (length ?teams) \<and> ?teams ! 1 = ?teams ! nat i
        \<and> (\<exists>others. teamMembers (?teams ! 1)
              = \<lparr>member_id = 42, realm = 1, favoriteRace = None, displayName = ''b''\<rparr> # others)
        \<and> i \<notin> set (used ?l)
        \<and> member_id \<lparr>member_id = 42, realm = 1, favoriteRace = None, displayName = ''b''\<rparr> = 42
        \<and> realm \<lparr>member_id = 42, realm = 1, favoriteRace = None, displayName = ''b''\<rparr> = 1
        \<and> (\<forall>j. found_idx ?l < j \<and> j < i \<longrightarrow>
              (\<exists>q qs. teamMembers (?teams ! nat j) = q # qs
                 \<and> \<not> (j \<notin> set (used ?l) \<and> member_id q = 42 \<and> realm q = 1)))
        \<and> \<lparr>found_idx = 1, used = [1]\<rparr> = ?l\<lparr>found_idx := i, used := used ?l @ [i]\<rparr>"
  proof (intro exI [of _ 1] conjI allI impI)
    fix j :: int
    assume "found_idx ?l < j \<and> j < 1"
    then have "j = 0" by simp
    then show "\<exists>q qs. teamMembers (?teams ! nat j) = q # qs
                 \<and> \<not> (j \<notin> set (used ?l) \<and> member_id q = 42 \<and> realm q = 1)"
      by simp
  qed simp_all
  with find_team_forward_scan [OF c w, of "?teams ! 1"
      "\<lparr>member_id = 42, realm = 1, favoriteRace = None, displayName = ''b''\<rparr>"
      "\<lparr>found_idx = 1, used = [1]\<rparr>"]
  have "find_team ?teams 1 42 ?l ?md
      = Inr (?teams ! 1, \<lparr>member_id = 42, realm = 1, favoriteRace = None, displayName = ''b''\<rparr>,
             \<lparr>found_idx = 1, used = [1]\<rparr>)"
    by blast
  with c show ?thesis by simp
qed

section \<open>The loop over the rank entries\<close>

text \<open>
  One iteration for an entry that is matched: the warning is logged when the two values of
  \<^verbatim>\<open>mmr\<close> differ; the entry is yielded, with the \<^verbatim>\<open>mmr\<close> of the team, unless \<^verbatim>\<open>Race.get\<close> or
  \<^verbatim>\<open>datetime.fromtimestamp\<close> raises; then the loop goes on with the entries that are left.
\<close>

lemma for_ranks_matched:
  assumes "find_team teams realmID profileID l meta_data = Inr (team, player, l1)"
  shows "for_ranks api_url ladderID lg teams realmID profileID (meta_data # rest) l logged =
    (let logged1 = logged @
           (if mmr meta_data \<noteq> team_mmr team
            then [Warning_MMR api_url (mmr meta_data) (team_mmr team)] else [])
     in case Race_get (favoriteRace player) of
          Inl e \<Rightarrow> (([], Some e), l1, logged1)
        | Inr race \<Rightarrow>
            (case fromtimestamp (joinTimestamp team) of
               Inl e \<Rightarrow> (([], Some e), l1, logged1)
             | Inr joined_at \<Rightarrow>
                 (case for_ranks api_url ladderID lg teams realmID profileID rest l1 logged1 of
                    ((es, ending), l2, logged2) \<Rightarrow>
                      ((\<lparr>entry_mmr = team_mmr team, entry_race = race,
                         games = wins team + losses team,
                         entry_wins = wins team, entry_losses = losses team,
                         name = displayName player, joined = joined_at,
                         ladder_id = ladderID, entry_league = lg\<rparr> # es, ending),
                       l2, logged2))))"
  using assms by (simp add: Let_def split: sum.splits prod.splits)

lemma for_ranks_unmatched:
  "find_team teams realmID profileID l meta_data = Inl e \<Longrightarrow>
   for_ranks api_url ladderID lg teams realmID profileID (meta_data # rest) l logged
   = (([], Some e), l, logged)"
  by simp

text \<open>The loop only appends to \<^verbatim>\<open>used\<close> and to the log.\<close>

lemma for_ranks_appends:
  "for_ranks api_url ladderID lg teams realmID profileID rs l logged = (r, l', logged') \<Longrightarrow>
   (\<exists>is. used l' = used l @ is) \<and> (\<exists>ws. logged' = logged @ ws)"
proof (induction rs arbitrary: l logged r l' logged')
  case Nil
  then show ?case by simp
next
  case (Cons meta_data rest)
  show ?case
  proof (cases "find_team teams realmID profileID l meta_data")
    case (Inl e)
    with Cons.prems show ?thesis by simp
  next
    case (Inr m)
    then obtain team player l1 where
      m: "find_team teams realmID profileID l meta_data = Inr (team, player, l1)"
      by (cases m) auto
    from find_team_used [OF m] obtain i where u1: "used l1 = used l @ [i]" by blast
    let ?logged1 = "logged @ (if mmr meta_data \<noteq> team_mmr team
      then [Warning_MMR api_url (mmr meta_data) (team_mmr team)] else [])"
    obtain es ending l2 logged2 where
      rec: "for_ranks api_url ladderID lg teams realmID profileID rest l1 ?logged1
            = ((es, ending), l2, logged2)"
      by (metis prod_cases3 surj_pair)
    from Cons.IH [OF rec] u1
    have ih: "(\<exists>is. used l2 = used l @ is) \<and> (\<exists>ws. logged2 = logged @ ws)"
      by auto
    from Cons.prems rec ih u1 show ?thesis
      unfolding for_ranks_matched [OF m]
      by (auto simp: Let_def split: sum.splits)
  qed
qed





text \<open>
  Conversely, every entry that is yielded comes from a match: the \<open>k\<close>-th entry yielded
  belongs to the \<open>k\<close>-th rank entry and to the team at the \<open>k\<close>-th index that the run has
  appended to \<^verbatim>\<open>used\<close>, and carries the \<^verbatim>\<open>mmr\<close> of that team.
\<close>

lemma for_ranks_yielded_entry:
  assumes "for_ranks api_url ladderID lg teams realmID profileID rs l logged
             = ((es, ending), l', logged')"
    and "k < length es"
  shows "k < length rs \<and> length (used l) + k < length (used l')
       \<and> (\<exists>team. py_index teams (used l' ! (length (used l) + k)) = Some team
             \<and> entry_mmr (es ! k) = team_mmr team
             \<and> (mmr (rs ! k) \<noteq> team_mmr team \<longrightarrow>
                  Warning_MMR api_url (mmr (rs ! k)) (team_mmr team) \<in> set logged'))"
  using assms
proof (induction rs arbitrary: l logged es k ending l' logged')
  case Nil
  then show ?case by simp
next
  case (Cons meta_data rest)
  show ?case
  proof (cases "find_team teams realmID profileID l meta_data")
    case (Inl e)
    with Cons.prems show ?thesis by simp
  next
    case (Inr m)
    then obtain team player l1 where
      m: "find_team teams realmID profileID l meta_data = Inr (team, player, l1)"
      by (cases m) auto
    from find_team_used [OF m] obtain i where
      u1: "used l1 = used l @ [i]" and t: "py_index teams i = Some team"
      by blast
    define logged1 where "logged1 = logged @ (if mmr meta_data \<noteq> team_mmr team
      then [Warning_MMR api_url (mmr meta_data) (team_mmr team)] else [])"
    obtain es1 ending1 l2 logged2 where
      rec: "for_ranks api_url ladderID lg teams realmID profileID rest l1 logged1
            = ((es1, ending1), l2, logged2)"
      by (metis prod_cases3 surj_pair)
    from for_ranks_appends [OF rec] obtain "is" ws where
      u2: "used l2 = used l1 @ is" and w2: "logged2 = logged1 @ ws"
      by blast
    have "for_ranks api_url ladderID lg teams realmID profileID (meta_data # rest) l logged =
      (case Race_get (favoriteRace player) of
          Inl e \<Rightarrow> (([], Some e), l1, logged1)
        | Inr race \<Rightarrow>
            (case fromtimestamp (joinTimestamp team) of
               Inl e \<Rightarrow> (([], Some e), l1, logged1)
             | Inr joined_at \<Rightarrow>
                 (case for_ranks api_url ladderID lg teams realmID profileID rest l1 logged1 of
                    ((es, ending), l2, logged2) \<Rightarrow>
                      ((\<lparr>entry_mmr = team_mmr team, entry_race = race,
                         games = wins team + losses team,
                         entry_wins = wins team, entry_losses = losses team,
                         name = displayName player, joined = joined_at,
                         ladder_id = ladderID, entry_league = lg\<rparr> # es, ending),
                       l2, logged2))))"
      unfolding logged1_def using for_ranks_matched [OF m] by (simp add: Let_def)
    note step = this [unfolded rec prod.case]
    from Cons.prems(1) [unfolded step] Cons.prems(2) obtain e0 where
      es: "es = e0 # es1" and e0: "entry_mmr e0 = team_mmr team"
      and l': "l' = l2" and lg': "logged' = logged2"
      by (auto split: sum.splits)
    show ?thesis
    proof (cases k)
      case 0
      from u1 u2 l' have "used l' ! (length (used l) + 0) = i"
        "length (used l) + 0 < length (used l')"
        by (simp_all add: nth_append)
      moreover from es e0 have "entry_mmr (es ! 0) = team_mmr team" by simp
      moreover have "mmr meta_data \<noteq> team_mmr team \<longrightarrow>
        Warning_MMR api_url (mmr meta_data) (team_mmr team) \<in> set logged'"
        using w2 lg' by (auto simp: logged1_def)
      ultimately show ?thesis using 0 t by simp
    next
      case (Suc k')
      with Cons.prems(2) es have k': "k' < length es1" by simp
      from Cons.IH [OF rec k'] u1 l' lg' Suc es show ?thesis by simp
    qed
  qed
qed

text \<open>
  The scenario of one rank entry with \<^verbatim>\<open>mmr\<close> 3500 and its team with \<^verbatim>\<open>mmr\<close> 3600, from the
  request to the entry: the entry yielded has 3600, and the warning is logged.
\<close>

lemma get_ladder_data_mmr_mismatch:
  "get_ladder_data Europe 1 42 7
     (st\<lparr>access_token := Some ''token'', access_token_checked := True,
         session :=
           \<lparr>status = 200,
            body = Some (empty_payload
              \<lparr>league := Some ''diamond'',
               ranksAndPools := Some [\<lparr>rank = 1, mmr = 3500\<rparr>],
               ladderTeams := Some
                 [\<lparr>teamMembers =
                     [\<lparr>member_id = 42, realm = 1, favoriteRace = Some ''Prot'',
                       displayName = ''p''\<rparr>],
                   wins = 10, losses = 5, team_mmr = 3600, joinTimestamp = 1000\<rparr>]\<rparr>),
            decoded_at = now\<rparr> ## s\<rparr>)
   = (([\<lparr>entry_mmr = 3600, entry_race = Protoss, games = 15, entry_wins = 10,
         entry_losses = 5, name = ''p'', joined = 1000, ladder_id = 7,
         entry_league = Diamond\<rparr>], None),
      st\<lparr>access_token := Some ''token'', access_token_checked := True,
         session := s, sent := sent st @ [LadderUrl 2 1 42 7],
         request_count := request_count st + 1,
         log := log st @ [Warning_MMR (LadderUrl 2 1 42 7) 3500 3600]\<rparr>)"
  by (simp add: get_ladder_data_def get_access_token_def perform_api_request_def
      for_retries.simps session_get_def empty_payload_def find_team_def claimed_team_def
      py_index_def Race_members_def League_members_def lower_def fromtimestamp_def Let_def)

text \<open>
  A team whose \<^verbatim>\<open>joinTimestamp\<close> is in milliseconds is matched, but no entry is yielded for it:
  \<^verbatim>\<open>datetime.fromtimestamp\<close> raises.
\<close>

lemma for_ranks_timestamp_out_of_range:
  "for_ranks api_url 7 lg
     [\<lparr>teamMembers =
         [\<lparr>member_id = 42, realm = 1, favoriteRace = Some ''Prot'', displayName = ''p''\<rparr>],
       wins = 10, losses = 5, team_mmr = 3500, joinTimestamp = 1600000000000\<rparr>]
     1 42 [\<lparr>rank = 1, mmr = 3500\<rparr>] \<lparr>found_idx = - 1, used = []\<rparr> logged
   = (([], Some (ValueError ''year is out of range'')), \<lparr>found_idx = - 1, used = [0]\<rparr>, logged)"
  by (simp add: find_team_def claimed_team_def py_index_def Race_members_def lower_def
      fromtimestamp_def)

section \<open>Further properties\<close>

text \<open>
  The executor always returns: when the loop ends without \<^verbatim>\<open>break\<close>, the loop variable holds
  the last value of the range, so \<^verbatim>\<open>json\<close> and \<^verbatim>\<open>status\<close> are bound whenever they are read.
\<close>

lemma for_retries_unbound:
  "for_retries u retries rest error st = ((retries', error', None), st') \<Longrightarrow>
   retries' = last (retries # rest)"
proof (induction rest arbitrary: retries error st)
  case Nil
  then show ?case
    by (subst (asm) for_retries.simps)
       (auto simp: session_get_def Let_def split: if_splits option.splits)
next
  case (Cons a rest)
  from Cons.prems show ?case
    by (subst (asm) for_retries.simps)
       (auto simp: session_get_def Let_def split: if_splits option.splits dest!: Cons.IH)
qed

lemma perform_api_request_returns:
  "\<exists>data sc st'. perform_api_request u st = (Inr (data, sc), st')"
proof -
  obtain retries error outcome st1 where
    f: "for_retries u 0 [1, 2, 3, 4, 5, 6, 7, 8, 9] '''' st = ((retries, error, outcome), st1)"
    by (metis prod_cases3 surj_pair)
  show ?thesis
  proof (cases outcome)
    case None
    with for_retries_unbound [of u 0 "[1, 2, 3, 4, 5, 6, 7, 8, 9]" "''''" st retries error st1] f
    have "retries = 9" by simp
    with f show ?thesis by (simp add: perform_api_request_def)
  next
    case (Some r)
    with f show ?thesis by (cases r) (simp add: perform_api_request_def)
  qed
qed

text \<open>When the claimed-index step fails.\<close>

lemma claimed_team_None_iff:
  "claimed_team teams realmID profileID idx = None \<longleftrightarrow>
     (py_index teams idx = None
      \<or> (\<exists>team. py_index teams idx = Some team
            \<and> (teamMembers team = []
               \<or> (\<exists>q qs. teamMembers team = q # qs
                     \<and> \<not> (member_id q = profileID \<and> realm q = realmID)))))"
  by (auto simp: claimed_team_def split: option.splits list.splits)

lemma py_index_None_iff:
  "py_index xs i = None \<longleftrightarrow> i < - int (length xs) \<or> int (length xs) \<le> i"
  by (auto simp: py_index_def Let_def)

text \<open>
  The watermark never decreases and stays at \<open>-1\<close> or above, from its first value \<open>-1\<close> on.
\<close>

lemma find_team_watermark:
  assumes "find_team teams realmID profileID l meta_data = Inr (team, player, l')"
    and "- 1 \<le> found_idx l"
  shows "found_idx l \<le> found_idx l'"
proof (cases "claimed_team teams realmID profileID (rank meta_data - 1)")
  case None
  with assms(1) obtain i where
    s: "scan teams realmID profileID (used l) (found_idx l + 1) = Inr (Some (i, team, player))"
    and l': "l' = l\<lparr>found_idx := i, used := used l @ [i]\<rparr>"
    by (auto simp: find_team_def Let_def split: sum.splits option.splits)
  from assms(2) have "0 \<le> found_idx l + 1" by simp
  from scan_Some_first [OF s this] l' show ?thesis by simp
next
  case (Some a)
  with assms(1) show ?thesis
    by (cases a) (auto simp: find_team_def Let_def)
qed

text \<open>A token that is set and checked is returned without any request.\<close>

lemma get_access_token_cached:
  "\<not> py_not (access_token st) \<Longrightarrow> access_token_checked st \<Longrightarrow>
   get_access_token st = (Inr (access_token st), st)"
  by (simp add: get_access_token_def)

text \<open>
  With no token set, a refresh that is answered at once with status 200 stores the new
  token, marks it checked and writes it to the configuration.
\<close>

lemma get_access_token_refresh:
  "py_not (access_token st) \<Longrightarrow>
   get_access_token
     (st\<lparr>session := \<lparr>status = 200, body = Some json, decoded_at = now\<rparr> ## s\<rparr>)
   = (Inr (access_token_json json),
      st\<lparr>session := s, sent := sent st @ [OAuthToken (key st) (secret st)],
         request_count := request_count st + 1,
         access_token := access_token_json json, access_token_checked := True,
         config := (config st)(''access_token'' \<mapsto> access_token_json json),
         log := log st @ [Info ''New access token received.'']\<rparr>)"
  by (simp add: get_access_token_def receive_new_access_token_def perform_api_request_def
      for_retries.simps session_get_def)

text \<open>
  The scenario of one rank entry and one team of the target profile, from the request to
  the entry: the token is cached and checked, the ladder request is answered with status
  200.
\<close>

lemma get_ladder_data_one_entry:
  "fst (get_ladder_data Europe 1 42 7
     (st\<lparr>access_token := Some ''token'', access_token_checked := True,
         session :=
           \<lparr>status = 200,
            body = Some (empty_payload
              \<lparr>league := Some ''diamond'',
               ranksAndPools := Some [\<lparr>rank = 1, mmr = 3500\<rparr>],
               ladderTeams := Some
                 [\<lparr>teamMembers =
                     [\<lparr>member_id = 42, realm = 1, favoriteRace = Some ''Prot'',
                       displayName = ''p''\<rparr>],
                   wins = 10, losses = 5, team_mmr = 3500, joinTimestamp = 1000\<rparr>]\<rparr>),
            decoded_at = now\<rparr> ## s\<rparr>))
   = ([\<lparr>entry_mmr = 3500, entry_race = Protoss, games = 15, entry_wins = 10,
        entry_losses = 5, name = ''p'', joined = 1000, ladder_id = 7,
        entry_league = Diamond\<rparr>], None)"
  by (simp add: get_ladder_data_def get_access_token_def perform_api_request_def
      for_retries.simps session_get_def empty_payload_def find_team_def claimed_team_def
      py_index_def Race_members_def League_members_def lower_def fromtimestamp_def)

section \<open>The executor on any run of transient failures\<close>

lemma for_retries_all_transient:
  "\<forall>r\<in>set ts. transient r \<Longrightarrow> length ts = Suc (length rest) \<Longrightarrow>
   session st = ts @- s \<Longrightarrow>
   for_retries u retries rest error st
   = ((last (retries # rest), describe (last ts), None),
      st\<lparr>session := s, sent := sent st @ replicate (length ts) u,
         request_count := request_count st + int (length ts),
         retry_count := retry_count st + int (length ts)\<rparr>)"
proof (induction ts arbitrary: retries rest error st)
  case Nil
  then show ?case by simp
next
  case (Cons t ts)
  from Cons.prems(1) have t: "status t = 504 \<or> body t = None" by (simp add: transient_def)
  show ?case
  proof (cases rest)
    case Nil
    with Cons.prems(2) have "ts = []" by simp
    with Nil Cons.prems(3) t show ?thesis
      by (subst for_retries.simps) (auto simp: session_get_def describe_def)
  next
    case (Cons a rest')
    let ?e = "if status t = 504 then ''API timeout'' else ''Unable to decode JSON!''"
    let ?st = "st\<lparr>session := ts @- s, sent := sent st @ [u],
      request_count := request_count st + 1, retry_count := retry_count st + 1\<rparr>"
    from Cons Cons.prems(2) have ne: "ts \<noteq> []" by auto
    from Cons Cons.prems have
      ih: "for_retries u a rest' ?e ?st
        = ((last (a # rest'), describe (last ts), None),
           ?st\<lparr>session := s, sent := sent ?st @ replicate (length ts) u,
             request_count := request_count ?st + int (length ts),
             retry_count := retry_count ?st + int (length ts)\<rparr>)"
      by (intro Cons.IH) auto
    have "for_retries u retries rest error st = for_retries u a rest' ?e ?st"
      using Cons Cons.prems(3) t by (subst for_retries.simps) (auto simp: session_get_def)
    with ih ne Cons show ?thesis
      by (simp add: replicate_append_same flip: replicate_append_same)
  qed
qed

lemma for_retries_then_final:
  "\<forall>r\<in>set ts. transient r \<Longrightarrow> length ts \<le> length rest \<Longrightarrow>
   session st = ts @- (f ## s) \<Longrightarrow> status f \<noteq> 504 \<Longrightarrow> body f = Some json \<Longrightarrow>
   for_retries u retries rest error st
   = (((retries # rest) ! length ts, (if ts = [] then error else describe (last ts)),
       Some (json\<lparr>request_datetime := Some (decoded_at f)\<rparr>, status f)),
      st\<lparr>session := s, sent := sent st @ replicate (Suc (length ts)) u,
         request_count := request_count st + int (length ts) + 1,
         retry_count := retry_count st + int (length ts)\<rparr>)"
proof (induction ts arbitrary: retries rest error st)
  case Nil
  then show ?case
    by (subst for_retries.simps) (simp add: session_get_def)
next
  case (Cons t ts)
  from Cons.prems(1) have t: "status t = 504 \<or> body t = None" by (simp add: transient_def)
  from Cons.prems(2) obtain a rest' where rest: "rest = a # rest'" by (cases rest) auto
  let ?e = "if status t = 504 then ''API timeout'' else ''Unable to decode JSON!''"
  let ?st = "st\<lparr>session := ts @- (f ## s), sent := sent st @ [u],
    request_count := request_count st + 1, retry_count := retry_count st + 1\<rparr>"
  from rest Cons.prems have
    ih: "for_retries u a rest' ?e ?st
      = (((a # rest') ! length ts, (if ts = [] then ?e else describe (last ts)),
          Some (json\<lparr>request_datetime := Some (decoded_at f)\<rparr>, status f)),
         ?st\<lparr>session := s, sent := sent ?st @ replicate (Suc (length ts)) u,
           request_count := request_count ?st + int (length ts) + 1,
           retry_count := retry_count ?st + int (length ts)\<rparr>)"
    by (intro Cons.IH) auto
  have "for_retries u retries rest error st = for_retries u a rest' ?e ?st"
    using rest Cons.prems(3) t by (subst for_retries.simps) (auto simp: session_get_def)
  with ih rest show ?case
    by (auto simp: describe_def replicate_append_same simp flip: replicate_append_same)
qed

text \<open>
  Fewer than nine transient failures and then a response that is neither a timeout nor
  undecodable: the call returns the stamped body and the status of that response, whatever
  the status, and has counted one retry for each failure.
\<close>

lemma perform_api_request_retries:
  assumes "\<forall>r\<in>set ts. transient r" and "length ts < 9"
    and "session st = ts @- (f ## s)" and "status f \<noteq> 504" and "body f = Some json"
  shows "perform_api_request u st
   = (Inr (json\<lparr>request_datetime := Some (decoded_at f)\<rparr>, status f),
      st\<lparr>session := s, sent := sent st @ replicate (Suc (length ts)) u,
         request_count := request_count st + int (length ts) + 1,
         retry_count := retry_count st + int (length ts)\<rparr>)"
proof -
  have "[0, 1, 2, 3, 4, 5, 6, 7, 8, 9] ! k = k" if "k < 9" for k :: nat
    using that by (auto simp: eval_nat_numeral less_Suc_eq)
  with assms(2) have n: "[0, 1, 2, 3, 4, 5, 6, 7, 8, 9] ! length ts = length ts"
    by blast
  from assms(2) have "length ts \<le> length [1, 2, 3, 4, 5, 6, 7, 8, 9 :: nat]" by simp
  from for_retries_then_final [OF assms(1) this assms(3,4,5), of u 0 "''''"] n assms(2)
  show ?thesis by (simp add: perform_api_request_def)
qed

text \<open>
  Nine transient failures and then such a response: the tenth attempt succeeds, and the
  call still returns the empty payload with status 0 and logs the ninth failure.
\<close>

lemma perform_api_request_tenth_attempt:
  assumes "\<forall>r\<in>set ts. transient r" and "length ts = 9"
    and "session st = ts @- (f ## s)" and "status f \<noteq> 504" and "body f = Some json"
  shows "perform_api_request u st
   = (Inr (empty_payload, 0),
      st\<lparr>session := s, sent := sent st @ replicate 10 u,
         request_count := request_count st + 10,
         retry_count := retry_count st + 9,
         log := log st @ [Warning (describe (last ts))]\<rparr>)"
proof -
  from assms(2) have "length ts \<le> length [1, 2, 3, 4, 5, 6, 7, 8, 9 :: nat]" by simp
  moreover from assms(2) have "ts \<noteq> []" by auto
  moreover have "describe (last ts) \<noteq> ''''" by (simp add: describe_def)
  ultimately show ?thesis
    using for_retries_then_final [OF assms(1) _ assms(3,4,5), of "[1, 2, 3, 4, 5, 6, 7, 8, 9]" u 0 "''''"]
      assms(2)
    by (simp add: perform_api_request_def)
qed

text \<open>
  Ten transient failures: the empty payload with status 0, and a warning with the
  description of the tenth.
\<close>

lemma perform_api_request_exhausted:
  assumes "\<forall>r\<in>set ts. transient r" and "length ts = 10" and "session st = ts @- s"
  shows "perform_api_request u st
   = (Inr (empty_payload, 0),
      st\<lparr>session := s, sent := sent st @ replicate 10 u,
         request_count := request_count st + 10,
         retry_count := retry_count st + 10,
         log := log st @ [Warning (describe (last ts))]\<rparr>)"
proof -
  from assms(2) have "length ts = Suc (length [1, 2, 3, 4, 5, 6, 7, 8, 9 :: nat])" by simp
  moreover have "describe (last ts) \<noteq> ''''" by (simp add: describe_def)
  ultimately show ?thesis
    using for_retries_all_transient [OF assms(1) _ assms(3), of "[1, 2, 3, 4, 5, 6, 7, 8, 9]" u 0 "''''"]
      assms(2)
    by (simp add: perform_api_request_def)
qed

section \<open>The generic pattern on every URL of its shape\<close>

lemma one_or_more_stop:
  "rest = [] \<or> \<not> cls (hd rest) \<Longrightarrow> one_or_more cls k acc rest = None"
  by (cases rest) auto

text \<open>
  A greedy repetition takes the whole run of characters of its class when the continuation
  accepts what follows the run.
\<close>

lemma one_or_more_run:
  "ds \<noteq> [] \<Longrightarrow> \<forall>c\<in>set ds. cls c \<Longrightarrow> rest = [] \<or> \<not> cls (hd rest) \<Longrightarrow>
   k (acc @ ds) rest = Some r \<Longrightarrow> one_or_more cls k acc (ds @ rest) = Some r"
proof (induction ds arbitrary: acc)
  case Nil
  then show ?case by simp
next
  case (Cons d ds)
  show ?case
  proof (cases "ds = []")
    case True
    with Cons.prems show ?thesis by (simp add: one_or_more_stop)
  next
    case False
    with Cons.prems have "one_or_more cls k (acc @ [d]) (ds @ rest) = Some r"
      by (intro Cons.IH) auto
    with Cons.prems show ?thesis by simp
  qed
qed

lemma lit_const:
  "lit p (\<lambda>_. Some x) s = None \<or> lit p (\<lambda>_. Some x) s = Some x"
  by (induction p "\<lambda>_ :: string. Some x" s rule: lit.induct) auto

lemma optional_lit_const:
  "optional (lit p) (\<lambda>_. Some x) s = Some x"
  using lit_const [of p x s] by (auto simp: optional_def)

lemma p1_generic:
  assumes "sv \<in> set ''12345''" and "rl \<in> set ''12''"
    and "ds \<noteq> []" and "\<forall>c\<in>set ds. is_digit c" and "rest = [] \<or> \<not> is_digit (hd rest)"
  shows "p1 (''https://starcraft2.com/profile/'' @ sv # CHR ''/'' # rl # CHR ''/'' # ds @ rest)
       = Some (sv, rl, ds)"
proof -
  have "one_or_more is_digit (\<lambda>g3. optional (lit ''/'') (\<lambda>_. Some (sv, rl, g3))) [] (ds @ rest)
      = Some (sv, rl, ds)"
    using assms(3,4,5) by (intro one_or_more_run) (simp_all add: optional_lit_const)
  with assms(1,2) show ?thesis
    by (simp add: p1_def optional_def any_char_def one_of_def lower_def is_word_def)
qed

text \<open>
  A URL of the generic shape with the server code 1, 2 or 3 gives the triple it encodes;
  with the server code 4 or 5 it raises \<^verbatim>\<open>ValueError\<close>, whatever the realm and the profile
  are.
\<close>

lemma parse_profile_url_generic_1_2_3:
  assumes "sv \<in> set ''123''" and "rl \<in> set ''12''"
    and "ds \<noteq> []" and "\<forall>c\<in>set ds. is_digit c" and "rest = [] \<or> \<not> is_digit (hd rest)"
  shows "parse_profile_url
           (''https://starcraft2.com/profile/'' @ sv # CHR ''/'' # rl # CHR ''/'' # ds @ rest)
       = Inr (if sv = CHR ''1'' then America else if sv = CHR ''2'' then Europe else Korea,
              digit_value rl, int_of_digits ds)"
proof -
  from assms(1) have "sv \<in> set ''12345''" by auto
  from p1_generic [OF this assms(2,3,4,5)] assms(1) show ?thesis
    by (auto simp: parse_profile_url_def int_of_digits_def digit_value_def Server_of_value_def)
qed

lemma parse_profile_url_generic_4_5:
  assumes "sv \<in> set ''45''" and "rl \<in> set ''12''"
    and "ds \<noteq> []" and "\<forall>c\<in>set ds. is_digit c" and "rest = [] \<or> \<not> is_digit (hd rest)"
  shows "parse_profile_url
           (''https://starcraft2.com/profile/'' @ sv # CHR ''/'' # rl # CHR ''/'' # ds @ rest)
       = Inl (ValueError ''not a valid Server'')"
proof -
  from assms(1) have "sv \<in> set ''12345''" by auto
  from p1_generic [OF this assms(2,3,4,5)] assms(1) show ?thesis
    by (auto simp: parse_profile_url_def int_of_digits_def digit_value_def Server_of_value_def)
qed

section \<open>Several callers of the token manager\<close>

text \<open>
  Claim C9, as the claim states it: any number of callers that find no valid token cause one
  refresh and receive the same token. With no token set and a token endpoint that rejects
  the request, each of two callers sends its own refresh request and receives the
  exception; with an endpoint that answers 200 without a token, each of two callers sends
  its own refresh request and receives \<^verbatim>\<open>None\<close>.
\<close>

theorem calls_two_refreshes:
  "calls (Suc (Suc 0))
     \<lparr>key = ''k'', secret = ''s'', access_token = None, access_token_checked = False,
      request_count = 0, retry_count = 0,
      session = sconst \<lparr>status = 401, body = Some empty_payload, decoded_at = 1\<rparr>,
      sent = [], config = Map.empty, log = []\<rparr>
   = ([Inl (InvalidApiResponse 401), Inl (InvalidApiResponse 401)],
      \<lparr>key = ''k'', secret = ''s'', access_token = None, access_token_checked = False,
       request_count = 2, retry_count = 0,
       session = sconst \<lparr>status = 401, body = Some empty_payload, decoded_at = 1\<rparr>,
       sent = [OAuthToken ''k'' ''s'', OAuthToken ''k'' ''s''],
       config = Map.empty, log = []\<rparr>)
   \<and> calls (Suc (Suc 0))
     \<lparr>key = ''k'', secret = ''s'', access_token = None, access_token_checked = False,
      request_count = 0, retry_count = 0,
      session = sconst \<lparr>status = 200, body = Some empty_payload, decoded_at = 1\<rparr>,
      sent = [], config = Map.empty, log = []\<rparr>
   = ([Inr None, Inr None],
      \<lparr>key = ''k'', secret = ''s'', access_token = None, access_token_checked = True,
       request_count = 2, retry_count = 0,
       session = sconst \<lparr>status = 200, body = Some empty_payload, decoded_at = 1\<rparr>,
       sent = [OAuthToken ''k'' ''s'', OAuthToken ''k'' ''s''],
       config = [''access_token'' \<mapsto> None],
       log = [Info ''New access token received.'', Info ''New access token received.'']\<rparr>)"
  by (simp add: get_access_token_def receive_new_access_token_def perform_api_request_def
      for_retries.simps session_get_def empty_payload_def)

text \<open>Once a token is set and checked, further callers receive it and nothing is sent.\<close>

lemma calls_cached:
  "\<not> py_not (access_token st) \<Longrightarrow> access_token_checked st \<Longrightarrow>
   calls k st = (replicate k (Inr (access_token st)), st)"
  by (induction k) (simp_all add: get_access_token_cached)

text \<open>
  Claim C9, amended. Let \<open>K \<ge> 1\<close> callers come to \<^verbatim>\<open>get_access_token\<close> while no valid token is
  cached: no token is set, or the token is set, not yet checked, and fails its check. If
  the refresh, which is one call of the request executor for the token endpoint, ends with
  status 200 and a token that is not empty, then this is the only refresh: all \<open>K\<close> callers
  receive that token, and the state after the \<open>K\<close> calls is the state that the one refresh
  has left, so no caller after the first sends a request.
\<close>

theorem calls_single_refresh:
  assumes "perform_api_request (OAuthToken (key st0) (secret st0)) st0 = (Inr (data, 200), st1)"
    and "access_token_json data = Some token" and "token \<noteq> []"
    and "py_not (access_token st) \<and> st0 = st
       \<or> \<not> py_not (access_token st) \<and> \<not> access_token_checked st
         \<and> check_access_token (access_token st) st = (False, st0)"
  shows "calls (Suc k) st
       = (replicate (Suc k) (Inr (Some token)),
          st1\<lparr>access_token := Some token, access_token_checked := True,
              config := (config st1)(''access_token'' \<mapsto> Some token),
              log := log st1 @ [Info ''New access token received.'']\<rparr>)"
proof -
  let ?st2 = "st1\<lparr>access_token := Some token, access_token_checked := True,
              config := (config st1)(''access_token'' \<mapsto> Some token),
              log := log st1 @ [Info ''New access token received.'']\<rparr>"
  have r: "receive_new_access_token st0 = (Inr (), ?st2)"
    using assms(1,2) by (simp add: receive_new_access_token_def)
  have first: "get_access_token st = (Inr (Some token), ?st2)"
    using assms(4)
  proof
    assume "py_not (access_token st) \<and> st0 = st"
    with r show ?thesis by (simp add: get_access_token_def)
  next
    assume "\<not> py_not (access_token st) \<and> \<not> access_token_checked st
         \<and> check_access_token (access_token st) st = (False, st0)"
    with r show ?thesis by (simp add: get_access_token_def)
  qed
  have "calls k ?st2 = (replicate k (Inr (access_token ?st2)), ?st2)"
    using assms(3) by (intro calls_cached) simp_all
  with first show ?thesis by simp
qed

theorem calls_single_refresh_witness:
  "calls (Suc 2)
     \<lparr>key = ''k'', secret = ''s'', access_token = Some ''old'', access_token_checked = False,
      request_count = 0, retry_count = 0,
      session = \<lparr>status = 401, body = None, decoded_at = 1\<rparr>
        ## \<lparr>status = 200, body = Some (empty_payload\<lparr>access_token_json := Some ''new''\<rparr>),
            decoded_at = 2\<rparr>
        ## sconst \<lparr>status = 500, body = None, decoded_at = 3\<rparr>,
      sent = [], config = Map.empty, log = []\<rparr>
   = ([Inr (Some ''new''), Inr (Some ''new''), Inr (Some ''new'')],
      \<lparr>key = ''k'', secret = ''s'', access_token = Some ''new'', access_token_checked = True,
       request_count = 2, retry_count = 0,
       session = sconst \<lparr>status = 500, body = None, decoded_at = 3\<rparr>,
       sent = [OAuthCheckToken (Some ''old''), OAuthToken ''k'' ''s''],
       config = [''access_token'' \<mapsto> Some ''new''],
       log = [Info ''New access token received.'']\<rparr>)"
proof -
  let ?start = "\<lparr>key = ''k'', secret = ''s'', access_token = Some ''old'',
      access_token_checked = False, request_count = 0, retry_count = 0,
      session = \<lparr>status = 401, body = None, decoded_at = 1\<rparr>
        ## \<lparr>status = 200, body = Some (empty_payload\<lparr>access_token_json := Some ''new''\<rparr>),
            decoded_at = 2\<rparr>
        ## sconst \<lparr>status = 500, body = None, decoded_at = 3\<rparr>,
      sent = [], config = Map.empty, log = []\<rparr>"
  let ?checked = "\<lparr>key = ''k'', secret = ''s'', access_token = Some ''old'',
      access_token_checked = False, request_count = 1, retry_count = 0,
      session = \<lparr>status = 200, body = Some (empty_payload\<lparr>access_token_json := Some ''new''\<rparr>),
            decoded_at = 2\<rparr>
        ## sconst \<lparr>status = 500, body = None, decoded_at = 3\<rparr>,
      sent = [OAuthCheckToken (Some ''old'')], config = Map.empty, log = []\<rparr>"
  let ?refreshed = "\<lparr>key = ''k'', secret = ''s'', access_token = Some ''old'',
      access_token_checked = False, request_count = 2, retry_count = 0,
      session = sconst \<lparr>status = 500, body = None, decoded_at = 3\<rparr>,
      sent = [OAuthCheckToken (Some ''old''), OAuthToken ''k'' ''s''],
      config = Map.empty, log = []\<rparr>"
  have refresh: "perform_api_request (OAuthToken (key ?checked) (secret ?checked)) ?checked
      = (Inr (empty_payload\<lparr>access_token_json := Some ''new'', request_datetime := Some 2\<rparr>, 200),
         ?refreshed)"
    by (simp add: perform_api_request_def for_retries.simps session_get_def)
  have token: "access_token_json
      (empty_payload\<lparr>access_token_json := Some ''new'', request_datetime := Some 2\<rparr>)
      = Some ''new''"
    by simp
  have "check_access_token (access_token ?start) ?start = (False, ?checked)"
    by (simp add: check_access_token_def session_get_def Let_def)
  then have needed: "py_not (access_token ?start) \<and> ?checked = ?start
       \<or> \<not> py_not (access_token ?start) \<and> \<not> access_token_checked ?start
         \<and> check_access_token (access_token ?start) ?start = (False, ?checked)"
    by simp
  from calls_single_refresh [OF refresh token _ needed, of 2] show ?thesis
    by (simp add: eval_nat_numeral)
qed

section \<open>The match history\<close>

text \<open>
  A match of the scope with a known decision and a date in range gives an entry; an
  unknown decision raises \<^verbatim>\<open>KeyError\<close>, and a date out of range raises \<^verbatim>\<open>ValueError\<close>.
\<close>

lemma for_matches_examples:
  "for_matches ''1v1''
     [\<lparr>match_type = ''1v1'', decision = ''Win'', date = 1000\<rparr>,
      \<lparr>match_type = ''2v2'', decision = ''Left'', date = 1600000000000\<rparr>]
   = Inr [(Win, 1000)]
   \<and> for_matches ''1v1'' [\<lparr>match_type = ''1v1'', decision = ''Left'', date = 1000\<rparr>]
   = Inl (KeyError ''Left'')
   \<and> for_matches ''1v1'' [\<lparr>match_type = ''1v1'', decision = ''Win'', date = 1600000000000\<rparr>]
   = Inl (ValueError ''year is out of range'')"
  by (simp add: Result_getitem_def Result_members_def fromtimestamp_def)

section \<open>One request for any number of callers\<close>

text \<open>
  With no token set and a token endpoint that answers at once with status 200 and a token
  that is not empty, \<open>K\<close> callers cause one request in all, the one to the token endpoint.
\<close>

lemma calls_single_request:
  assumes "py_not (access_token st)"
    and "session st = \<lparr>status = 200, body = Some json, decoded_at = now\<rparr> ## s"
    and "access_token_json json = Some token" and "token \<noteq> []"
  shows "calls (Suc k) st
       = (replicate (Suc k) (Inr (Some token)),
          st\<lparr>session := s, sent := sent st @ [OAuthToken (key st) (secret st)],
             request_count := request_count st + 1,
             access_token := Some token, access_token_checked := True,
             config := (config st)(''access_token'' \<mapsto> Some token),
             log := log st @ [Info ''New access token received.'']\<rparr>)"
proof -
  let ?after = "st\<lparr>session := s, sent := sent st @ [OAuthToken (key st) (secret st)],
             request_count := request_count st + 1,
             access_token := Some token, access_token_checked := True,
             config := (config st)(''access_token'' \<mapsto> Some token),
             log := log st @ [Info ''New access token received.'']\<rparr>"
  have "st = st\<lparr>session := \<lparr>status = 200, body = Some json, decoded_at = now\<rparr> ## s\<rparr>"
    using assms(2) by simp
  with get_access_token_refresh [OF assms(1), of json now s] assms(3)
  have first: "get_access_token st = (Inr (Some token), ?after)"
    by simp
  have "calls k ?after = (replicate k (Inr (access_token ?after)), ?after)"
    using assms(4) by (intro calls_cached) simp_all
  with first show ?thesis by simp
qed

end
